theory Spec2Isabelle
  imports Main
begin

section \<open>JavaScript strings and values\<close>

text \<open>
  Strings are lists of code units. Only code units below 256 are representable; the
  white space of \<open>String.prototype.trim\<close> in that range is TAB, LF, VT, FF, CR, SP
  and NBSP.
\<close>

definition is_ws :: "char \<Rightarrow> bool" where
  "is_ws c = (c \<in> set [CHR 0x09, CHR 0x0A, CHR 0x0B, CHR 0x0C, CHR 0x0D, CHR 0x20, CHR 0xA0])"

definition trim :: "string \<Rightarrow> string" where
  "trim s = rev (dropWhile is_ws (rev (dropWhile is_ws s)))"

text \<open>\<open>s.trimEnd()\<close>: the second half of \<open>trim\<close>.\<close>

definition trimEnd :: "string \<Rightarrow> string" where
  "trimEnd s = rev (dropWhile is_ws (rev s))"

definition startsWith :: "string \<Rightarrow> string \<Rightarrow> bool" where
  "startsWith s p = (take (length p) s = p)"

text \<open>\<open>s.includes(p)\<close>: \<open>p\<close> occurs somewhere in \<open>s\<close>.\<close>

fun str_includes :: "string \<Rightarrow> string \<Rightarrow> bool" where
  "str_includes [] p = (p = [])"
| "str_includes (c # cs) p = (startsWith (c # cs) p \<or> str_includes cs p)"

text \<open>\<open>xs.join(sep)\<close> on an array of strings.\<close>

fun join :: "string \<Rightarrow> string list \<Rightarrow> string" where
  "join sep [] = []"
| "join sep [x] = x"
| "join sep (x # y # ys) = x @ sep @ join sep (y # ys)"

definition digit_char :: "nat \<Rightarrow> char" where
  "digit_char d = ''0123456789'' ! d"

text \<open>Decimal rendering of a non-negative integer, as \<open>String(n)\<close> gives it.\<close>

function show_nat :: "nat \<Rightarrow> string" where
  "show_nat n = (if n < 10 then [digit_char n] else show_nat (n div 10) @ [digit_char (n mod 10)])"
  by pat_completeness auto
termination
  by (relation "measure (\<lambda>n. n)") auto

definition show_int :: "int \<Rightarrow> string" where
  "show_int i = (if i < 0 then CHR ''-'' # show_nat (nat (- i)) else show_nat (nat i))"

text \<open>\<open>s.toUpperCase()\<close> on ASCII text (the persona ids of the orchestrator are ASCII).\<close>

definition upper_char :: "char \<Rightarrow> char" where
  "upper_char c =
     (case map_of (zip ''abcdefghijklmnopqrstuvwxyz'' ''ABCDEFGHIJKLMNOPQRSTUVWXYZ'') c of
        Some u \<Rightarrow> u
      | None \<Rightarrow> c)"

definition toUpperCase :: "string \<Rightarrow> string" where
  "toUpperCase s = map upper_char s"

text \<open>
  A value produced by \<open>JSON.parse\<close>. Numbers are restricted to integers of a magnitude
  below \<open>10 ^ 15\<close>: their \<open>String\<close> conversion is their decimal rendering, and they
  are exact as doubles. A property that is absent reads as \<open>undefined\<close>, which is
  \<open>None\<close> in \<open>json option\<close>.
\<close>

datatype json =
    JNull
  | JBool bool
  | JNum int
  | JStr string
  | JArr "json list"
  | JObj "(string \<times> json) list"

fun truthy :: "json \<Rightarrow> bool" where
  "truthy JNull = False"
| "truthy (JBool b) = b"
| "truthy (JNum n) = (n \<noteq> 0)"
| "truthy (JStr s) = (s \<noteq> [])"
| "truthy (JArr _) = True"
| "truthy (JObj _) = True"

text \<open>\<open>v.k\<close>: own property of an object, \<open>undefined\<close> on every other parsed value.\<close>

fun get_prop :: "json \<Rightarrow> string \<Rightarrow> json option" where
  "get_prop (JObj kvs) k = map_of kvs k"
| "get_prop _ k = None"

text \<open>\<open>a || b\<close> where \<open>a\<close> may be \<open>undefined\<close>.\<close>

definition or_else :: "json option \<Rightarrow> json \<Rightarrow> json" where
  "or_else a b = (case a of Some v \<Rightarrow> if truthy v then v else b | None \<Rightarrow> b)"

text \<open>\<open>a?.k\<close>: \<open>undefined\<close> when \<open>a\<close> is \<open>undefined\<close> or \<open>null\<close>.\<close>

definition opt_chain :: "json option \<Rightarrow> string \<Rightarrow> json option" where
  "opt_chain a k = (case a of None \<Rightarrow> None | Some JNull \<Rightarrow> None | Some v \<Rightarrow> get_prop v k)"

text \<open>A thrown value: an \<open>Error\<close> with its message, or \<open>undefined\<close>.\<close>

datatype thrown = Error (message: string) | Undefined

section \<open>llm-client.js\<close>

record content_block =
  content_type :: string
  content_text :: "string option"

record output_item =
  item_type :: string
  item_content :: "content_block list option"

record usage =
  input_tokens :: "nat option"
  output_tokens :: "nat option"
  reasoning_tokens :: "nat option"
  total_tokens :: "nat option"

text \<open>The body of a successful provider response: \<open>{output_text?, output?, usage?, id?}\<close>.\<close>

record response_data =
  output_text :: "string option"
  output_array :: "output_item list option"
  usage :: "usage option"
  response_id :: "string option"

record tokens =
  input :: nat
  output' :: nat
  reasoning :: nat
  total :: nat

text \<open>The completion outcome \<open>{parsed, raw, tokens, responseId}\<close>.\<close>

record completion =
  parsed :: json
  raw :: string
  tokens :: tokens
  responseId :: "string option"

definition fence :: string where
  "fence = [CHR 0x60, CHR 0x60, CHR 0x60]"

definition newline :: char where
  "newline = CHR 0x0A"

text \<open>
  The two patterns of \<open>parseResponse\<close> are \<open>L\n?([\s\S]*?)\n?```\<close> with the literal
  \<open>L\<close> being \<open>```json\<close> or \<open>```\<close>. \<open>closes t\<close>: the tail \<open>\n?```\<close> matches at the
  head of \<open>t\<close>. \<open>lazy_capture t\<close>: the group followed by that tail, shortest group first.
  \<open>match_here\<close>: the pattern anchored at the head, the optional newline after the literal
  taken first and given back when the rest fails. \<open>regex_match\<close>: the leftmost match,
  giving group 1.
\<close>

definition closes :: "string \<Rightarrow> bool" where
  "closes t = (startsWith t (newline # fence) \<or> startsWith t fence)"

fun lazy_capture :: "string \<Rightarrow> string option" where
  "lazy_capture [] = (if closes [] then Some [] else None)"
| "lazy_capture (c # cs) =
     (if closes (c # cs) then Some [] else map_option ((#) c) (lazy_capture cs))"

definition match_here :: "string \<Rightarrow> string \<Rightarrow> string option" where
  "match_here lit t =
     (if startsWith t lit then
        (let r = drop (length lit) t;
             greedy = (case r of [] \<Rightarrow> None
                       | c # cs \<Rightarrow> if c = newline then lazy_capture cs else None)
         in case greedy of Some g \<Rightarrow> Some g | None \<Rightarrow> lazy_capture r)
      else None)"

fun regex_match :: "string \<Rightarrow> string \<Rightarrow> string option" where
  "regex_match lit [] = match_here lit []"
| "regex_match lit (c # cs) =
     (case match_here lit (c # cs) of Some g \<Rightarrow> Some g | None \<Rightarrow> regex_match lit cs)"

text \<open>
  \<open>jsonMatch = rawText.match(/```json.../) || rawText.match(/```.../)\<close> and
  \<open>jsonStr = jsonMatch ? jsonMatch[1].trim() : rawText.trim()\<close>.
\<close>

definition jsonMatch :: "string \<Rightarrow> string option" where
  "jsonMatch rawText =
     (case regex_match (fence @ ''json'') rawText of
        Some g \<Rightarrow> Some g
      | None \<Rightarrow> regex_match fence rawText)"

definition jsonStr :: "string \<Rightarrow> string" where
  "jsonStr rawText = (case jsonMatch rawText of Some g \<Rightarrow> trim g | None \<Rightarrow> trim rawText)"

text \<open>The text of the content blocks of the \<open>output\<close> array, concatenated.\<close>

definition block_text :: "content_block \<Rightarrow> string" where
  "block_text c =
     (if content_type c = ''output_text'' \<or> content_type c = ''text''
      then (case content_text c of Some t \<Rightarrow> t | None \<Rightarrow> [])
      else [])"

definition item_text :: "output_item \<Rightarrow> string" where
  "item_text item =
     (if item_type item = ''message''
      then (case item_content item of Some cs \<Rightarrow> concat (map block_text cs) | None \<Rightarrow> [])
      else [])"

definition or_zero :: "nat option \<Rightarrow> nat" where
  "or_zero x = (case x of Some n \<Rightarrow> n | None \<Rightarrow> 0)"

definition usage_tokens :: "usage option \<Rightarrow> tokens" where
  "usage_tokens u =
     (case u of
        None \<Rightarrow> \<lparr>input = 0, output' = 0, reasoning = 0, total = 0\<rparr>
      | Some us \<Rightarrow> \<lparr>input = or_zero (input_tokens us), output' = or_zero (output_tokens us),
                    reasoning = or_zero (reasoning_tokens us), total = or_zero (total_tokens us)\<rparr>)"

text \<open>
  \<open>rawText\<close>: the flattened field \<open>output_text\<close> when it is not empty, otherwise the
  text of the \<open>output\<close> array.
\<close>

definition raw_text :: "response_data \<Rightarrow> string" where
  "raw_text data =
     (let flat = (case output_text data of Some t \<Rightarrow> t | None \<Rightarrow> [])
      in if flat = []
         then (case output_array data of
                 Some items \<Rightarrow> concat (map item_text items)
               | None \<Rightarrow> [])
         else flat)"

text \<open>
  \<open>parseResponse(data, expectJson)\<close>. \<open>JSON.parse\<close> is the parameter \<open>JSON_parse\<close>,
  \<open>None\<close> where it throws.
\<close>

definition parseResponse :: "(string \<Rightarrow> json option) \<Rightarrow> response_data \<Rightarrow> bool \<Rightarrow> completion" where
  "parseResponse JSON_parse data expectJson =
     (let rawText = raw_text data;
          p = (if expectJson \<and> rawText \<noteq> []
               then (case JSON_parse (jsonStr rawText) of Some v \<Rightarrow> v | None \<Rightarrow> JNull)
               else JNull)
      in \<lparr>parsed = p, raw = rawText, tokens = usage_tokens (usage data),
          responseId = response_id data\<rparr>)"

text \<open>
  What one \<open>fetch\<close> of the provider endpoint gives: a rejection (network failure, timeout),
  or a response with its status, its body as text and its body as \<open>response.json()\<close>
  reads it (\<open>Inl\<close> the message of the error it throws).
\<close>

record http_response =
  http_status :: nat
  body_text :: string
  body_json :: "string + response_data"

datatype fetch_outcome = Rejected string | Response http_response

definition ok :: "http_response \<Rightarrow> bool" where
  "ok r = (200 \<le> http_status r \<and> http_status r \<le> 299)"

definition api_error :: "nat \<Rightarrow> string \<Rightarrow> thrown" where
  "api_error st errorText =
     Error (''OpenAI Responses API error ('' @ show_nat st @ ''): '' @ errorText)"

text \<open>\<open>complete\<close>, from the outcome of its one \<open>fetch\<close> on.\<close>

definition complete :: "(string \<Rightarrow> json option) \<Rightarrow> bool \<Rightarrow> fetch_outcome \<Rightarrow> thrown + completion" where
  "complete JSON_parse expectJson f =
     (case f of
        Rejected msg \<Rightarrow> Inl (Error msg)
      | Response r \<Rightarrow>
          if \<not> ok r then Inl (api_error (http_status r) (body_text r))
          else (case body_json r of
                  Inl msg \<Rightarrow> Inl (Error msg)
                | Inr data \<Rightarrow> Inr (parseResponse JSON_parse data expectJson)))"

text \<open>
  The trace of one \<open>completeWithRetry\<close>: how many times the provider was invoked and the
  delays slept between attempts, in milliseconds.
\<close>

record retry_trace =
  invocations :: nat
  delays :: "nat list"

text \<open>
  The loop \<open>for (attempt = 1; attempt <= retries; attempt++)\<close>. \<open>call k\<close> is what
  \<open>this.complete\<close> gives at attempt \<open>k\<close>. \<open>lastError\<close> starts \<open>undefined\<close>.
\<close>

function retry_loop ::
  "(nat \<Rightarrow> thrown + completion) \<Rightarrow> nat \<Rightarrow> nat \<Rightarrow> thrown \<Rightarrow> nat list
     \<Rightarrow> (thrown + completion) \<times> retry_trace" where
  "retry_loop call retries attempt lastError ds =
     (if attempt \<le> retries then
        (case call attempt of
           Inr r \<Rightarrow> (Inr r, \<lparr>invocations = attempt, delays = ds\<rparr>)
         | Inl error \<Rightarrow>
             if str_includes (message error) ''(4''
             then (Inl error, \<lparr>invocations = attempt, delays = ds\<rparr>)
             else retry_loop call retries (attempt + 1) error
                    (if attempt < retries then ds @ [2 ^ attempt * 1000] else ds))
      else (Inl lastError, \<lparr>invocations = attempt - 1, delays = ds\<rparr>))"
  by pat_completeness auto
termination
  by (relation "measure (\<lambda>(call, retries, attempt, lastError, ds). Suc retries - attempt)") auto

definition completeWithRetry ::
  "(string \<Rightarrow> json option) \<Rightarrow> bool \<Rightarrow> (nat \<Rightarrow> fetch_outcome) \<Rightarrow> nat
     \<Rightarrow> (thrown + completion) \<times> retry_trace" where
  "completeWithRetry JSON_parse expectJson fetch retries =
     retry_loop (\<lambda>k. complete JSON_parse expectJson (fetch k)) retries 1 Undefined []"

section \<open>orchestrator.js\<close>

subsection \<open>Built-ins used by the orchestrator\<close>

definition hex_digit :: "nat \<Rightarrow> char" where
  "hex_digit d = ''0123456789abcdef'' ! d"

text \<open>The escape of one code unit inside a string literal of \<open>JSON.stringify\<close>.\<close>

definition quote_char :: "char \<Rightarrow> string" where
  "quote_char c =
     (let n = (of_char c :: nat) in
      if n = 34 then [CHR 0x5C, CHR 0x22]
      else if n = 92 then [CHR 0x5C, CHR 0x5C]
      else if n = 8 then [CHR 0x5C, CHR ''b'']
      else if n = 12 then [CHR 0x5C, CHR ''f'']
      else if n = 10 then [CHR 0x5C, CHR ''n'']
      else if n = 13 then [CHR 0x5C, CHR ''r'']
      else if n = 9 then [CHR 0x5C, CHR ''t'']
      else if n < 32 then [CHR 0x5C, CHR ''u'', CHR ''0'', CHR ''0'', hex_digit (n div 16), hex_digit (n mod 16)]
      else [c])"

definition quote :: "string \<Rightarrow> string" where
  "quote s = CHR 0x22 # concat (map quote_char s) @ [CHR 0x22]"

text \<open>\<open>JSON.stringify(v)\<close> of a parsed value, without indentation.\<close>

fun JSON_stringify :: "json \<Rightarrow> string" where
  "JSON_stringify JNull = ''null''"
| "JSON_stringify (JBool b) = (if b then ''true'' else ''false'')"
| "JSON_stringify (JNum n) = show_int n"
| "JSON_stringify (JStr s) = quote s"
| "JSON_stringify (JArr xs) = ''['' @ join '','' (map JSON_stringify xs) @ '']''"
| "JSON_stringify (JObj kvs) =
     ''{'' @ join '','' (map (\<lambda>kv. quote (fst kv) @ '':'' @ JSON_stringify (snd kv)) kvs) @ ''}''"

text \<open>
  \<open>String(v)\<close>, the conversion a template literal applies. An array is its elements
  joined by a comma, \<open>null\<close> elements giving the empty string.
\<close>

fun js_toString :: "json \<Rightarrow> string" where
  "js_toString JNull = ''null''"
| "js_toString (JBool b) = (if b then ''true'' else ''false'')"
| "js_toString (JNum n) = show_int n"
| "js_toString (JStr s) = s"
| "js_toString (JArr xs) = join '','' (map (\<lambda>x. if x = JNull then [] else js_toString x) xs)"
| "js_toString (JObj kvs) = ''[object Object]''"

text \<open>\<open>xs.join(sep)\<close> on an array of parsed values.\<close>

definition array_join :: "string \<Rightarrow> json list \<Rightarrow> string" where
  "array_join sep xs = join sep (map (\<lambda>x. if x = JNull then [] else js_toString x) xs)"

subsection \<open>The driver of the store\<close>

text \<open>
  What the driver (better-sqlite3) binds to one parameter of a statement: \<open>null\<close>, a
  number, always as a double, or a string. It throws a \<open>TypeError\<close> on every other
  value.
\<close>

datatype bound = BNull | BReal int | BText string

fun bind_value :: "json \<Rightarrow> thrown + bound" where
  "bind_value JNull = Inr BNull"
| "bind_value (JNum n) = Inr (BReal n)"
| "bind_value (JStr s) = Inr (BText s)"
| "bind_value _ = Inl (Error ''SQLite3 can only bind numbers, strings, bigints, buffers, and null'')"

text \<open>
  Binding values one after the other to the next positional parameters of a statement
  with \<open>n\<close> parameters, \<open>acc\<close> being what is bound so far: a value that cannot be bound
  throws the \<open>TypeError\<close>, a value beyond the last parameter throws a \<open>RangeError\<close>.
\<close>

fun bind_values :: "nat \<Rightarrow> bound list \<Rightarrow> json list \<Rightarrow> thrown + bound list" where
  "bind_values n acc [] = Inr acc"
| "bind_values n acc (v # vs) =
     (case bind_value v of
        Inl e \<Rightarrow> Inl e
      | Inr b \<Rightarrow>
          if n \<le> length acc then Inl (Error ''Too many parameter values were provided'')
          else bind_values n (acc @ [b]) vs)"

text \<open>
  The arguments of \<open>run(...)\<close>, in order. An argument that is an array is spread: each
  of its elements is bound to the next parameter. An argument that is a plain object is
  taken as the named parameters, of which the statements of this program have none: it
  binds nothing, and a second one throws. Every other argument is bound as one value. At
  the end, fewer values than parameters throw a \<open>RangeError\<close>.
\<close>

fun bind_args :: "nat \<Rightarrow> bool \<Rightarrow> bound list \<Rightarrow> json list \<Rightarrow> thrown + bound list" where
  "bind_args n named acc [] =
     (if length acc < n then Inl (Error ''Too few parameter values were provided'') else Inr acc)"
| "bind_args n named acc (JArr xs # args) =
     (case bind_values n acc xs of
        Inl e \<Rightarrow> Inl e
      | Inr acc' \<Rightarrow> bind_args n named acc' args)"
| "bind_args n named acc (JObj kvs # args) =
     (if named
      then Inl (Error ''You cannot specify named parameters in two different objects'')
      else bind_args n True acc args)"
| "bind_args n named acc (v # args) =
     (case bind_values n acc [v] of
        Inl e \<Rightarrow> Inl e
      | Inr acc' \<Rightarrow> bind_args n named acc' args)"

text \<open>
  A value stored in a row. A column declared \<open>TEXT\<close> stores a number as the text of the
  double, which for the integers of this model is the decimal rendering followed by
  \<open>.0\<close>. A column declared \<open>INTEGER\<close> stores a number that is an integer as an integer;
  a text that does not read as a number it keeps as text (\<open>saveResponse\<close> binds the
  number \<open>tokens.total\<close> last, so that no text reaches its \<open>INTEGER\<close> column).
\<close>

datatype sql_value = SqlNull | SqlInteger int | SqlText string

fun text_affinity :: "bound \<Rightarrow> sql_value" where
  "text_affinity BNull = SqlNull"
| "text_affinity (BReal n) = SqlText (show_int n @ ''.0'')"
| "text_affinity (BText s) = SqlText s"

fun integer_affinity :: "bound \<Rightarrow> sql_value" where
  "integer_affinity BNull = SqlNull"
| "integer_affinity (BReal n) = SqlInteger n"
| "integer_affinity (BText s) = SqlText s"

subsection \<open>The store\<close>

text \<open>A row of the table \<open>responses\<close>, with the columns that \<open>saveResponse\<close> writes.\<close>

record response_row =
  row_id :: sql_value
  session_id :: sql_value
  persona_id :: sql_value
  position :: sql_value
  top_reasons :: sql_value
  top_risks :: sql_value
  recommended_modifications :: sql_value
  validation_metrics :: sql_value
  confidence :: sql_value
  raw_analysis :: sql_value
  tokens_used :: sql_value

definition columns :: "response_row \<Rightarrow> sql_value list" where
  "columns r =
     [row_id r, session_id r, persona_id r, position r, top_reasons r, top_risks r,
      recommended_modifications r, validation_metrics r, confidence r, raw_analysis r,
      tokens_used r]"

text \<open>The row that eleven bound values make, in the column order of the \<open>INSERT\<close>.\<close>

fun row_of :: "bound list \<Rightarrow> response_row option" where
  "row_of [a, b, c, d, e, f, g, h, i, j, k] =
     Some \<lparr>row_id = text_affinity a, session_id = text_affinity b, persona_id = text_affinity c,
           position = text_affinity d, top_reasons = text_affinity e, top_risks = text_affinity f,
           recommended_modifications = text_affinity g, validation_metrics = text_affinity h,
           confidence = text_affinity i, raw_analysis = text_affinity j,
           tokens_used = integer_affinity k\<rparr>"
| "row_of _ = None"

datatype memo_option = OptionText string | OptionObject "string option"

record constraints =
  time :: "string option"
  budget :: "string option"
  risk_tolerance :: "string option"
  politics :: "string option"

text \<open>
  \<open>memoData\<close>: the row of the table \<open>memos\<close> after \<open>JSON.parse\<close> of its columns, which
  the memo route wrote with \<open>JSON.stringify\<close> from a Request Packet. An option is a
  plain string or an object with an optional \<open>description\<close>.
\<close>

record memo =
  memo_context :: "string list"
  decision_required :: string
  options :: "memo_option list"
  constraints :: constraints
  success_metrics :: "string list"
  questions_for_board :: "string list"

text \<open>
  The store: the status of each session, the memo of each session, the ids of the rows
  of \<open>personas\<close>, and the rows of \<open>responses\<close> in insertion order.
\<close>

record db =
  sessions :: "string \<Rightarrow> string option"
  memos :: "string \<Rightarrow> memo option"
  personas :: "string list"
  responses :: "response_row list"

text \<open>
  The foreign keys of \<open>responses\<close>, which the driver enforces: a session id that is not
  null is the id of a session, a persona id that is not null is the id of a persona.
\<close>

definition foreign_keys_hold :: "db \<Rightarrow> response_row \<Rightarrow> bool" where
  "foreign_keys_hold d r =
     ((case session_id r of
         SqlNull \<Rightarrow> True
       | SqlText s \<Rightarrow> sessions d s \<noteq> None
       | SqlInteger n \<Rightarrow> False)
      \<and> (case persona_id r of
            SqlNull \<Rightarrow> True
          | SqlText s \<Rightarrow> s \<in> set (personas d)
          | SqlInteger n \<Rightarrow> False))"

text \<open>The primary key of \<open>responses\<close>: an id that is not null is the id of no other row.\<close>

definition primary_key_free :: "db \<Rightarrow> response_row \<Rightarrow> bool" where
  "primary_key_free d r = (row_id r = SqlNull \<or> row_id r \<notin> set (map row_id (responses d)))"

text \<open>\<open>UPDATE sessions SET status = ? WHERE id = ?\<close>: no row, no change.\<close>

definition set_status :: "db \<Rightarrow> string \<Rightarrow> string \<Rightarrow> db" where
  "set_status d sessionId st =
     d\<lparr>sessions := (sessions d)(sessionId := map_option (\<lambda>_. st) (sessions d sessionId))\<rparr>"

text \<open>
  \<open>saveResponse(sessionId, personaId, result)\<close>, with the fresh \<open>uuidv4()\<close> as the
  argument \<open>uuid\<close>: the eleven arguments of \<open>run\<close> are bound, and the row is inserted
  unless its id is taken or a foreign key fails.
\<close>

definition saveResponse :: "string \<Rightarrow> db \<Rightarrow> string \<Rightarrow> string \<Rightarrow> completion \<Rightarrow> thrown + db" where
  "saveResponse uuid d sessionId personaId result =
     (let p = or_else (Some (parsed result)) (JObj []);
          args =
            [JStr uuid, JStr sessionId, JStr personaId,
             or_else (get_prop p ''position'')
               (or_else (opt_chain (get_prop p ''integrated_recommendation'') ''decision'')
                  (JStr [])),
             JStr (JSON_stringify (or_else (get_prop p ''top_reasons'') (JArr []))),
             JStr (JSON_stringify (or_else (get_prop p ''top_risks'') (JArr []))),
             JStr (JSON_stringify (or_else (get_prop p ''recommended_modifications'') (JArr []))),
             JStr (JSON_stringify (or_else (get_prop p ''validation_metrics'') (JObj []))),
             or_else (get_prop p ''confidence'') (JStr ''medium''),
             JStr (raw result),
             JNum (int (total (tokens result)))]
      in case bind_args 11 False [] args of
           Inl e \<Rightarrow> Inl e
         | Inr bs \<Rightarrow>
             (case row_of bs of
                None \<Rightarrow> Inl (Error ''Too few parameter values were provided'')
              | Some row \<Rightarrow>
                  if \<not> primary_key_free d row
                  then Inl (Error ''UNIQUE constraint failed: responses.id'')
                  else if \<not> foreign_keys_hold d row
                  then Inl (Error ''FOREIGN KEY constraint failed'')
                  else Inr (d\<lparr>responses := responses d @ [row]\<rparr>)))"

subsection \<open>Prompt texts\<close>

text \<open>\<open>x || d\<close> on an optional string.\<close>

definition str_or :: "string option \<Rightarrow> string \<Rightarrow> string" where
  "str_or x d = (case x of Some s \<Rightarrow> if s = [] then d else s | None \<Rightarrow> d)"

text \<open>\<open>`${o.description || o}`\<close>.\<close>

fun option_text :: "memo_option \<Rightarrow> string" where
  "option_text (OptionText s) = s"
| "option_text (OptionObject d) = str_or d ''[object Object]''"

text \<open>\<open>xs.map((x, i) => `${i + 1}. ${x}`)\<close>.\<close>

definition numbered :: "string list \<Rightarrow> string list" where
  "numbered xs = map (\<lambda>(i, x). show_nat (i + 1) @ ''. '' @ x) (enumerate 0 xs)"

definition bullets :: "string list \<Rightarrow> string list" where
  "bullets xs = map (\<lambda>x. ''- '' @ x) xs"

definition politics_line :: "constraints \<Rightarrow> string" where
  "politics_line c =
     (case politics c of
        Some s \<Rightarrow> if s = [] then [] else ''- Political considerations: '' @ s
      | None \<Rightarrow> [])"

definition memo_template :: "memo \<Rightarrow> string" where
  "memo_template m =
     ''\<newline>## Board Memo\<newline>\<newline>### Context\<newline>''
     @ join ''\<newline>'' (bullets (memo_context m))
     @ ''\<newline>\<newline>### Decision Required\<newline>''
     @ decision_required m
     @ ''\<newline>\<newline>### Options\<newline>''
     @ join ''\<newline>'' (numbered (map option_text (options m)))
     @ ''\<newline>\<newline>### Constraints\<newline>- Time: ''
     @ str_or (time (constraints m)) ''Not specified''
     @ ''\<newline>- Budget: ''
     @ str_or (budget (constraints m)) ''Not specified''
     @ ''\<newline>- Risk Tolerance: ''
     @ str_or (risk_tolerance (constraints m)) ''Medium''
     @ ''\<newline>''
     @ politics_line (constraints m)
     @ ''\<newline>\<newline>### Success Metrics\<newline>''
     @ join ''\<newline>'' (bullets (success_metrics m))
     @ ''\<newline>\<newline>### Questions for the Board\<newline>''
     @ join ''\<newline>'' (numbered (questions_for_board m))
     @ ''\<newline>''"

definition formatMemoForPrompt :: "memo \<Rightarrow> string" where
  "formatMemoForPrompt m = trim (memo_template m)"

record board_entry =
  persona :: string
  result :: completion

text \<open>
  \<open>(v || []).join('; ')\<close>: a truthy value that is not an array has no \<open>join\<close>, and
  the call throws a \<open>TypeError\<close>.
\<close>

definition join_field :: "string \<Rightarrow> json option \<Rightarrow> thrown + string" where
  "join_field name v =
     (case or_else v (JArr []) of
        JArr xs \<Rightarrow> Inr (array_join ''; '' xs)
      | _ \<Rightarrow> Inl (Error (''(p.'' @ name @ '' || []).join is not a function'')))"

text \<open>The block of one reviewer in \<open>formatSynthesisInput\<close>.\<close>

definition board_block :: "board_entry \<Rightarrow> thrown + string" where
  "board_block b =
     (let p = or_else (Some (parsed (result b))) (JObj []) in
      case join_field ''top_reasons'' (get_prop p ''top_reasons'') of
        Inl e \<Rightarrow> Inl e
      | Inr reasons \<Rightarrow>
          (case join_field ''top_risks'' (get_prop p ''top_risks'') of
             Inl e \<Rightarrow> Inl e
           | Inr risks \<Rightarrow>
               Inr (''\<newline>### '' @ toUpperCase (persona b)
                    @ ''\<newline>- **Position:** '' @ js_toString (or_else (get_prop p ''position'') (JStr ''N/A''))
                    @ ''\<newline>- **Top Reasons:** '' @ reasons
                    @ ''\<newline>- **Top Risks:** '' @ risks
                    @ ''\<newline>- **Confidence:** '' @ js_toString (or_else (get_prop p ''confidence'') (JStr ''N/A''))
                    @ ''\<newline>'')))"

text \<open>\<open>boardResults.map(...)\<close>: the blocks in order, up to the first one that throws.\<close>

fun board_blocks :: "board_entry list \<Rightarrow> thrown + string list" where
  "board_blocks [] = Inr []"
| "board_blocks (b # bs) =
     (case board_block b of
        Inl e \<Rightarrow> Inl e
      | Inr s \<Rightarrow> (case board_blocks bs of Inl e \<Rightarrow> Inl e | Inr ss \<Rightarrow> Inr (s # ss)))"

definition formatSynthesisInput :: "memo \<Rightarrow> board_entry list \<Rightarrow> thrown + string" where
  "formatSynthesisInput m boardResults =
     (case board_blocks boardResults of
        Inl e \<Rightarrow> Inl e
      | Inr blocks \<Rightarrow>
          Inr (trim (''\<newline>## Original Memo\<newline>''
                     @ formatMemoForPrompt m
                     @ ''\<newline>\<newline>---\<newline>\<newline>## Board Member Responses\<newline>''
                     @ join ''\<newline>'' blocks
                     @ ''\<newline>\<newline>---\<newline>\<newline>Please synthesize these perspectives into a single, coherent recommendation.\<newline>'')))"

subsection \<open>runBoardMeeting\<close>

text \<open>What \<open>complete\<close> is called with, as far as the orchestrator chooses it.\<close>

record request =
  instructions :: string
  request_input :: string
  personaId :: string
  jsonSchema :: "string option"
  verbosity :: string
  includeReasoning :: bool

text \<open>
  What a run depends on outside the store: \<open>JSON.parse\<close>; the provider, giving the
  outcome of the \<open>k\<close>-th \<open>fetch\<close> made for a request; the prompt files; the ids
  \<open>uuidv4()\<close> gives, in call order; the configured \<open>retryAttempts\<close>; and the order in
  which the reviewer promises settle.
\<close>

record env =
  json_parse :: "string \<Rightarrow> json option"
  provider :: "request \<Rightarrow> nat \<Rightarrow> fetch_outcome"
  loadPrompt :: "string \<Rightarrow> string"
  uuidv4 :: "nat \<Rightarrow> string"
  retryAttempts :: nat
  settle_order :: "nat list"

text \<open>\<open>llm.completeWithRetry(prompt, input, options)\<close>, with \<open>maxRetries\<close> left null.\<close>

definition llm_call :: "env \<Rightarrow> request \<Rightarrow> (thrown + completion) \<times> retry_trace" where
  "llm_call e req =
     completeWithRetry (json_parse e) (jsonSchema req \<noteq> None) (provider e req) (retryAttempts e)"

definition boardPersonas :: "(string \<times> string) list" where
  "boardPersonas =
     [(''operator'', ''operator.txt''), (''finance'', ''finance.txt''),
      (''craft-expert'', ''craft-expert.txt''), (''contrarian'', ''contrarian.txt'')]"

definition secretary_request :: "env \<Rightarrow> string \<Rightarrow> request" where
  "secretary_request e memoText =
     \<lparr>instructions = loadPrompt e ''secretary.txt'', request_input = memoText,
      personaId = ''secretary'', jsonSchema = None, verbosity = ''low'',
      includeReasoning = False\<rparr>"

definition board_request :: "env \<Rightarrow> string \<Rightarrow> string \<times> string \<Rightarrow> request" where
  "board_request e memoText pf =
     \<lparr>instructions = loadPrompt e (snd pf), request_input = memoText,
      personaId = fst pf, jsonSchema = Some ''board_member_output'', verbosity = ''medium'',
      includeReasoning = False\<rparr>"

definition strategist_request :: "env \<Rightarrow> string \<Rightarrow> request" where
  "strategist_request e synthesisInput =
     \<lparr>instructions = loadPrompt e ''strategist.txt'', request_input = synthesisInput,
      personaId = ''strategist'', jsonSchema = Some ''strategist_synthesis'',
      verbosity = ''medium'', includeReasoning = True\<rparr>"

text \<open>
  The promise of one reviewer: rejected with what \<open>completeWithRetry\<close> threw, or
  fulfilled with \<open>{persona, result}\<close>.
\<close>

definition board_promise :: "string \<times> (thrown + completion) \<times> retry_trace \<Rightarrow> thrown + board_entry" where
  "board_promise r =
     (case fst (snd r) of
        Inl e \<Rightarrow> Inl e
      | Inr c \<Rightarrow> Inr \<lparr>persona = fst r, result = c\<rparr>)"

text \<open>
  \<open>Promise.all\<close>: rejected with the reason of the promise that rejects first, in the
  order \<open>order\<close> in which the promises settle (indices into the list; a promise that
  \<open>order\<close> leaves out settles after those it names, in list order); fulfilled with all
  values in list order when none rejects.
\<close>

definition promise_all :: "nat list \<Rightarrow> (thrown + 'a) list \<Rightarrow> thrown + 'a list" where
  "promise_all order ps =
     (case List.find (\<lambda>i. i < length ps \<and> isl (ps ! i)) (order @ [0..<length ps]) of
        Some i \<Rightarrow> Inl (projl (ps ! i))
      | None \<Rightarrow> Inr (map projr ps))"

text \<open>
  The loop \<open>for (const {persona, result} of boardResults) saveResponse(...)\<close>: the store
  after the rows written, and what was thrown, if anything.
\<close>

fun save_board :: "(nat \<Rightarrow> string) \<Rightarrow> nat \<Rightarrow> db \<Rightarrow> string \<Rightarrow> board_entry list \<Rightarrow> thrown option \<times> db" where
  "save_board uuids k d sessionId [] = (None, d)"
| "save_board uuids k d sessionId (b # bs) =
     (case saveResponse (uuids k) d sessionId (persona b) (result b) of
        Inl e \<Rightarrow> (Some e, d)
      | Inr d' \<Rightarrow> save_board uuids (k + 1) d' sessionId bs)"

record board_run_result =
  sessionId :: string
  status :: string
  secretary :: completion
  board :: "board_entry list"
  strategist :: completion
  totalTokens :: nat

text \<open>
  What a run leaves: the value returned or the value thrown, the store, and for each
  \<open>completeWithRetry\<close> started, in start order, its persona and its trace. The four
  reviewer calls are started together and nothing cancels them: each runs to its end,
  also when another one has rejected.
\<close>

record run_outcome =
  returned :: "thrown + board_run_result"
  store :: db
  calls :: "(string \<times> retry_trace) list"

text \<open>
  The four calls of \<open>runBoardMeeting\<close>, named: the call for the secretary, the list
  \<open>boardPromises\<close> (each reviewer with what its \<open>completeWithRetry\<close> gives), what
  \<open>await Promise.all(boardPromises)\<close> gives, and the call for the strategist.
\<close>

definition secretary_call :: "env \<Rightarrow> memo \<Rightarrow> (thrown + completion) \<times> retry_trace" where
  "secretary_call e memoData = llm_call e (secretary_request e (formatMemoForPrompt memoData))"

definition boardPromises :: "env \<Rightarrow> memo \<Rightarrow> (string \<times> (thrown + completion) \<times> retry_trace) list" where
  "boardPromises e memoData =
     map (\<lambda>pf. (fst pf, llm_call e (board_request e (formatMemoForPrompt memoData) pf))) boardPersonas"

definition awaited_board :: "env \<Rightarrow> memo \<Rightarrow> thrown + board_entry list" where
  "awaited_board e memoData =
     promise_all (settle_order e) (map board_promise (boardPromises e memoData))"

definition strategist_call :: "env \<Rightarrow> string \<Rightarrow> (thrown + completion) \<times> retry_trace" where
  "strategist_call e synthesisInput = llm_call e (strategist_request e synthesisInput)"

definition board_traces :: "env \<Rightarrow> memo \<Rightarrow> (string \<times> retry_trace) list" where
  "board_traces e memoData = map (\<lambda>r. (fst r, snd (snd r))) (boardPromises e memoData)"

definition runBoardMeeting :: "env \<Rightarrow> db \<Rightarrow> string \<Rightarrow> run_outcome" where
  "runBoardMeeting e d0 sid =
     (let d1 = set_status d0 sid ''running'' in
      case memos d1 sid of
        None \<Rightarrow> \<lparr>returned = Inl (Error ''No memo found for session''), store = d1, calls = []\<rparr>
      | Some memoData \<Rightarrow>
          (let c1 = [(''secretary'', snd (secretary_call e memoData))] in
           case fst (secretary_call e memoData) of
             Inl err \<Rightarrow> \<lparr>returned = Inl err, store = d1, calls = c1\<rparr>
           | Inr secretaryResult \<Rightarrow>
               (let c2 = c1 @ board_traces e memoData in
                case awaited_board e memoData of
                  Inl err \<Rightarrow> \<lparr>returned = Inl err, store = d1, calls = c2\<rparr>
                | Inr boardResults \<Rightarrow>
                    (case save_board (uuidv4 e) 0 d1 sid boardResults of
                       (Some err, d2) \<Rightarrow> \<lparr>returned = Inl err, store = d2, calls = c2\<rparr>
                     | (None, d2) \<Rightarrow>
                         (case formatSynthesisInput memoData boardResults of
                            Inl err \<Rightarrow> \<lparr>returned = Inl err, store = d2, calls = c2\<rparr>
                          | Inr synthesisInput \<Rightarrow>
                              (let c3 = c2 @ [(''strategist'', snd (strategist_call e synthesisInput))] in
                               case fst (strategist_call e synthesisInput) of
                                 Inl err \<Rightarrow> \<lparr>returned = Inl err, store = d2, calls = c3\<rparr>
                               | Inr strategistResult \<Rightarrow>
                                   (case saveResponse (uuidv4 e (length boardResults)) d2 sid
                                           ''strategist'' strategistResult of
                                      Inl err \<Rightarrow> \<lparr>returned = Inl err, store = d2, calls = c3\<rparr>
                                    | Inr d3 \<Rightarrow>
                                        \<lparr>returned = Inr
                                           \<lparr>sessionId = sid, status = ''complete'',
                                            secretary = secretaryResult,
                                            board = boardResults,
                                            strategist = strategistResult,
                                            totalTokens =
                                              total (tokens secretaryResult)
                                              + foldl (\<lambda>sum r. sum + total (tokens (result r))) 0 boardResults
                                              + total (tokens strategistResult)\<rparr>,
                                         store = set_status d3 sid ''complete'',
                                         calls = c3\<rparr>)))))))"

section \<open>Reading a rendered text\<close>

text \<open>
  \<open>after_first p s\<close>: what follows the first occurrence of \<open>p\<close> in \<open>s\<close>.
  \<open>in_order hs s\<close>: the texts \<open>hs\<close> occur in \<open>s\<close> one after the other, in this order.
\<close>

fun after_first :: "string \<Rightarrow> string \<Rightarrow> string option" where
  "after_first p [] = (if p = [] then Some [] else None)"
| "after_first p (c # cs) =
     (if startsWith (c # cs) p then Some (drop (length p) (c # cs)) else after_first p cs)"

fun in_order :: "string list \<Rightarrow> string \<Rightarrow> bool" where
  "in_order [] s = True"
| "in_order (h # hs) s = (case after_first h s of None \<Rightarrow> False | Some r \<Rightarrow> in_order hs r)"

section \<open>The candidate of the JSON extractor, in words\<close>

text \<open>\<open>before_first p s\<close>: what precedes the first occurrence of \<open>p\<close> in \<open>s\<close>.\<close>

fun before_first :: "string \<Rightarrow> string \<Rightarrow> string option" where
  "before_first p [] = (if p = [] then Some [] else None)"
| "before_first p (c # cs) =
     (if startsWith (c # cs) p then Some [] else map_option ((#) c) (before_first p cs))"

text \<open>
  \<open>between_fences opening s\<close>: the text from the first occurrence of \<open>opening\<close> in \<open>s\<close>
  to the next fence after it, when there is one.
\<close>

definition between_fences :: "string \<Rightarrow> string \<Rightarrow> string option" where
  "between_fences opening s =
     (case after_first opening s of None \<Rightarrow> None | Some r \<Rightarrow> before_first fence r)"

text \<open>
  The priority order: what follows a fence labelled \<open>json\<close>, else what follows any
  fence, else the whole text; trimmed.
\<close>

definition candidate_by_priority :: "string \<Rightarrow> string" where
  "candidate_by_priority rawText =
     (case between_fences (fence @ ''json'') rawText of
        Some c \<Rightarrow> trim c
      | None \<Rightarrow> (case between_fences fence rawText of Some c \<Rightarrow> trim c | None \<Rightarrow> trim rawText))"

text \<open>
  Following the words of the specification: the contents of a fenced block of any
  language are what stands between the line of the opening fence, which carries the
  language label, and the closing fence.
\<close>

definition fenced_block_contents :: "string \<Rightarrow> string option" where
  "fenced_block_contents s =
     (case between_fences fence s of
        None \<Rightarrow> None
      | Some body \<Rightarrow> Some (drop 1 (dropWhile (\<lambda>c. c \<noteq> newline) body)))"

section \<open>Inputs for the examples\<close>

text \<open>
  A stand-in for \<open>JSON.parse\<close>: it reads the empty object and throws on every other
  text. The examples give it only \<open>{}\<close> and texts that are not JSON, where it agrees
  with \<open>JSON.parse\<close>.
\<close>

definition parse_empty_object :: "string \<Rightarrow> json option" where
  "parse_empty_object s = (if s = ''{}'' then Some (JObj []) else None)"

definition http_error :: "nat \<Rightarrow> string \<Rightarrow> fetch_outcome" where
  "http_error st b = Response \<lparr>http_status = st, body_text = b, body_json = Inl ''Unexpected token''\<rparr>"

definition text_data :: "string \<Rightarrow> nat \<Rightarrow> response_data" where
  "text_data t n =
     \<lparr>output_text = Some t, output_array = None,
      usage = Some \<lparr>input_tokens = None, output_tokens = None, reasoning_tokens = None,
                    total_tokens = Some n\<rparr>,
      response_id = None\<rparr>"

definition http_ok :: "response_data \<Rightarrow> fetch_outcome" where
  "http_ok data = Response \<lparr>http_status = 200, body_text = [], body_json = Inr data\<rparr>"

text \<open>A provider that answers 503 twice and then succeeds, and one that always answers 503.\<close>

definition twice_503_then_ok :: "nat \<Rightarrow> fetch_outcome" where
  "twice_503_then_ok k = (if k < 3 then http_error 503 ''overloaded'' else http_ok (text_data ''done'' 7))"

definition always_503 :: "nat \<Rightarrow> fetch_outcome" where
  "always_503 k = http_error 503 ''overloaded''"

text \<open>
  A provider that answers 503 twice, with a body that holds the text \<open>(4\<close>, and then
  succeeds.
\<close>

definition twice_503_timeout_then_ok :: "nat \<Rightarrow> fetch_outcome" where
  "twice_503_timeout_then_ok k =
     (if k < 3 then http_error 503 ''upstream timeout (45s)'' else http_ok (text_data ''done'' 7))"

text \<open>A reviewer outcome whose text is not JSON, and the memo of the end-to-end scenario.\<close>

definition not_json_outcome :: completion where
  "not_json_outcome = parseResponse parse_empty_object (text_data ''I cannot answer in JSON'' 5) True"

definition job_offer_memo :: memo where
  "job_offer_memo =
     \<lparr>memo_context = [], decision_required = ''Should I take the new job offer?'',
      options = [OptionObject (Some ''Accept''), OptionObject (Some ''Decline'')],
      constraints = \<lparr>time = None, budget = None, risk_tolerance = Some ''medium'', politics = None\<rparr>,
      success_metrics = [], questions_for_board = []\<rparr>"

text \<open>A memo with a decision only: no context, option, constraint, metric or question.\<close>

definition bare_memo :: memo where
  "bare_memo =
     \<lparr>memo_context = [], decision_required = ''Ship it?'', options = [],
      constraints = \<lparr>time = None, budget = None, risk_tolerance = None, politics = None\<rparr>,
      success_metrics = [], questions_for_board = []\<rparr>"

text \<open>A response text that is one fenced block labelled \<open>js\<close> holding the empty object.\<close>

definition js_fenced_text :: string where
  "js_fenced_text = fence @ ''js\<newline>{}\<newline>'' @ fence"

text \<open>
  A provider that answers every request at once: plain text for the secretary, the empty
  object for a request with a schema, and as many tokens as the persona id has
  characters. And one that answers 503 to every request of one persona.
\<close>

definition ok_provider :: "request \<Rightarrow> nat \<Rightarrow> fetch_outcome" where
  "ok_provider req k =
     http_ok (text_data (if jsonSchema req = None then ''The memo is clear.'' else ''{}'')
                        (length (personaId req)))"

definition failing_for :: "string \<Rightarrow> request \<Rightarrow> nat \<Rightarrow> fetch_outcome" where
  "failing_for pid req k =
     (if personaId req = pid then http_error 503 ''overloaded'' else ok_provider req k)"

definition test_env :: "(request \<Rightarrow> nat \<Rightarrow> fetch_outcome) \<Rightarrow> env" where
  "test_env p =
     \<lparr>json_parse = parse_empty_object, provider = p, loadPrompt = (\<lambda>f. ''Prompt of '' @ f),
      uuidv4 = (\<lambda>k. ''id-'' @ show_nat k), retryAttempts = 3, settle_order = [3, 2, 1, 0]\<rparr>"

text \<open>A store with the session \<open>s1\<close>, in draft, its memo, and the six personas.\<close>

definition test_db :: db where
  "test_db =
     \<lparr>sessions = [''s1'' \<mapsto> ''draft''], memos = [''s1'' \<mapsto> job_offer_memo],
      personas = [''secretary'', ''operator'', ''finance'', ''craft-expert'', ''contrarian'',
                  ''strategist''],
      responses = []\<rparr>"

text \<open>What the four reviewers give against \<open>ok_provider\<close>.\<close>

definition ok_board :: "board_entry list" where
  "ok_board =
     map (\<lambda>p. \<lparr>persona = p,
                result = \<lparr>parsed = JObj [], raw = ''{}'',
                          tokens = \<lparr>input = 0, output' = 0, reasoning = 0, total = length p\<rparr>,
                          responseId = None\<rparr>\<rparr>)
       [''operator'', ''finance'', ''craft-expert'', ''contrarian'']"

text \<open>
  A strategist whose answer is the JSON text of an object with the position \<open>true\<close>, the
  other five calls being answered as by \<open>ok_provider\<close>; and \<open>JSON.parse\<close> on that text.
\<close>

definition position_true_text :: string where
  "position_true_text = ''{'' @ [CHR 0x22] @ ''position'' @ [CHR 0x22] @ '':true}''"

definition parse_position_true :: "string \<Rightarrow> json option" where
  "parse_position_true s =
     (if s = position_true_text then Some (JObj [(''position'', JBool True)])
      else parse_empty_object s)"

definition position_true_provider :: "request \<Rightarrow> nat \<Rightarrow> fetch_outcome" where
  "position_true_provider req k =
     (if personaId req = ''strategist'' then http_ok (text_data position_true_text 10)
      else ok_provider req k)"

definition position_true_env :: env where
  "position_true_env =
     \<lparr>json_parse = parse_position_true, provider = position_true_provider,
      loadPrompt = (\<lambda>f. ''Prompt of '' @ f), uuidv4 = (\<lambda>k. ''id-'' @ show_nat k),
      retryAttempts = 3, settle_order = [3, 2, 1, 0]\<rparr>"

section \<open>String search and decimal rendering\<close>

declare retry_loop.simps [simp del]
declare show_nat.simps [simp del]

lemma str_includes_append_right: "str_includes s p \<Longrightarrow> str_includes (a @ s) p"
  by (induction a) auto

lemma startsWith_append: "startsWith (p @ b) p"
  by (simp add: startsWith_def)

lemma str_includes_start: "startsWith s p \<Longrightarrow> str_includes s p"
  by (cases s) (auto simp: startsWith_def)

lemma str_includes_mid: "str_includes (a @ p @ b) p"
  by (rule str_includes_append_right) (rule str_includes_start, rule startsWith_append)

lemma digit_char_not_paren: "d < 10 \<Longrightarrow> digit_char d \<noteq> CHR ''(''"
proof -
  assume "d < 10"
  then have "d = 0 \<or> d = 1 \<or> d = 2 \<or> d = 3 \<or> d = 4 \<or> d = 5 \<or> d = 6 \<or> d = 7 \<or> d = 8 \<or> d = 9"
    by arith
  then show ?thesis by (auto simp: digit_char_def)
qed

lemma show_nat_three_digits:
  assumes "100 \<le> st" and "st < 1000"
  shows "show_nat st = [digit_char (st div 100), digit_char (st div 10 mod 10), digit_char (st mod 10)]"
proof -
  have d1: "\<not> st div 10 < 10" and d2: "st div 10 div 10 < 10" and d3: "st div 10 div 10 = st div 100"
    using assms by auto
  have "show_nat st = show_nat (st div 10) @ [digit_char (st mod 10)]"
    using assms by (subst show_nat.simps) simp
  also have "show_nat (st div 10) = show_nat (st div 10 div 10) @ [digit_char (st div 10 mod 10)]"
    using d1 by (subst show_nat.simps) simp
  also have "show_nat (st div 10 div 10) = [digit_char (st div 100)]"
    using d2 d3 by (subst show_nat.simps) simp
  finally show ?thesis by simp
qed

text \<open>The message of a 4xx response always holds the text \<open>(4\<close>.\<close>

lemma api_error_4xx:
  assumes "400 \<le> st" and "st \<le> 499"
  shows "str_includes (message (api_error st body)) ''(4''"
proof -
  have "st div 100 = 4" using assms by auto
  then have "show_nat st = CHR ''4'' # [digit_char (st div 10 mod 10), digit_char (st mod 10)]"
    using assms show_nat_three_digits [of st] by (simp add: digit_char_def)
  then have "message (api_error st body) =
      ''OpenAI Responses API error '' @ ''(4'' @
        ([digit_char (st div 10 mod 10), digit_char (st mod 10)] @ ''): '' @ body)"
    by (simp add: api_error_def)
  then show ?thesis using str_includes_mid by metis
qed

text \<open>The message of a 5xx response holds \<open>(4\<close> exactly when the body of the response does.\<close>

lemma api_error_5xx:
  assumes "500 \<le> st" and "st \<le> 599"
  shows "str_includes (message (api_error st body)) ''(4'' = str_includes body ''(4''"
proof -
  have "st div 100 = 5" using assms by auto
  then have sh: "show_nat st = CHR ''5'' # [digit_char (st div 10 mod 10), digit_char (st mod 10)]"
    using assms show_nat_three_digits [of st] by (simp add: digit_char_def)
  have "digit_char (st div 10 mod 10) \<noteq> CHR ''(''"
    by (rule digit_char_not_paren) simp
  then show ?thesis
    by (simp add: api_error_def sh startsWith_def)
qed

section \<open>The retry loop\<close>

text \<open>
  A run of failures that the loop retries, from attempt \<open>attempt\<close> up to attempt \<open>n\<close>
  excluded, sleeps \<open>2 ^ k\<close> seconds after attempt \<open>k\<close>.
\<close>

lemma retry_loop_failures:
  assumes "attempt \<le> n" and "n \<le> retries"
    and "\<And>k. attempt \<le> k \<Longrightarrow> k < n \<Longrightarrow> \<exists>err. call k = Inl err \<and> \<not> str_includes (message err) ''(4''"
  shows "retry_loop call retries attempt lastError ds =
         retry_loop call retries n (if attempt = n then lastError else projl (call (n - 1)))
           (ds @ map (\<lambda>k. 2 ^ k * 1000) [attempt..<n])"
  using assms
proof (induction n rule: dec_induct)
  case base
  then show ?case by simp
next
  case (step m)
  from step.prems(2)[of m] step.hyps obtain err where
    err: "call m = Inl err" "\<not> str_includes (message err) ''(4''" by auto
  have "retry_loop call retries attempt lastError ds =
        retry_loop call retries m (if attempt = m then lastError else projl (call (m - 1)))
           (ds @ map (\<lambda>k. 2 ^ k * 1000) [attempt..<m])"
    using step by simp
  also have "\<dots> = retry_loop call retries (Suc m) err
           ((ds @ map (\<lambda>k. 2 ^ k * 1000) [attempt..<m]) @ [2 ^ m * 1000])"
    using err step.prems(1) by (subst retry_loop.simps) simp
  finally show ?case using err step.hyps by simp
qed

lemma retry_loop_success:
  "attempt \<le> retries \<Longrightarrow> call attempt = Inr r \<Longrightarrow>
   retry_loop call retries attempt lastError ds = (Inr r, \<lparr>invocations = attempt, delays = ds\<rparr>)"
  by (subst retry_loop.simps) simp

lemma retry_loop_last:
  "call retries = Inl err \<Longrightarrow>
   retry_loop call retries retries lastError ds = (Inl err, \<lparr>invocations = retries, delays = ds\<rparr>)"
  by (subst retry_loop.simps, simp, subst retry_loop.simps, simp)

lemma retry_loop_stop:
  "attempt \<le> retries \<Longrightarrow> call attempt = Inl err \<Longrightarrow> str_includes (message err) ''(4'' \<Longrightarrow>
   retry_loop call retries attempt lastError ds = (Inl err, \<lparr>invocations = attempt, delays = ds\<rparr>)"
  by (subst retry_loop.simps) simp

text \<open>A failure with a status from 400 to 499 at the first attempt is thrown at once.\<close>

lemma completeWithRetry_4xx_thrown_at_once:
  assumes "0 < retries" and "fetch 1 = Response r" and "400 \<le> http_status r" and "http_status r \<le> 499"
  shows "completeWithRetry P x fetch retries =
         (Inl (api_error (http_status r) (body_text r)), \<lparr>invocations = 1, delays = []\<rparr>)"
proof -
  have "complete P x (fetch 1) = Inl (api_error (http_status r) (body_text r))"
    using assms by (simp add: complete_def ok_def)
  moreover have "str_includes (message (api_error (http_status r) (body_text r))) ''(4''"
    using assms by (simp add: api_error_4xx)
  ultimately show ?thesis
    unfolding completeWithRetry_def using assms(1) by (simp add: retry_loop_stop)
qed

lemma completeWithRetry_succeeds_at:
  assumes "1 \<le> n" and "n \<le> retries"
    and "\<And>k. 1 \<le> k \<Longrightarrow> k < n \<Longrightarrow> \<exists>err. complete P x (fetch k) = Inl err \<and> \<not> str_includes (message err) ''(4''"
    and "complete P x (fetch n) = Inr outcome"
  shows "completeWithRetry P x fetch retries =
         (Inr outcome, \<lparr>invocations = n, delays = map (\<lambda>k. 2 ^ k * 1000) [1..<n]\<rparr>)"
  unfolding completeWithRetry_def
  by (subst retry_loop_failures [where n = n]) (use assms in \<open>simp_all add: retry_loop_success\<close>)

lemma completeWithRetry_exhausted:
  assumes "0 < retries"
    and "\<And>k. 1 \<le> k \<Longrightarrow> k \<le> retries \<Longrightarrow> complete P x (fetch k) = Inl (errs k)"
    and "\<And>k. 1 \<le> k \<Longrightarrow> k < retries \<Longrightarrow> \<not> str_includes (message (errs k)) ''(4''"
  shows "completeWithRetry P x fetch retries =
         (Inl (errs retries), \<lparr>invocations = retries, delays = map (\<lambda>k. 2 ^ k * 1000) [1..<retries]\<rparr>)"
  unfolding completeWithRetry_def
  by (subst retry_loop_failures [where n = retries]) (use assms in \<open>simp_all add: retry_loop_last\<close>)

lemma complete_5xx:
  assumes "f = Response r" and "500 \<le> http_status r" and "http_status r \<le> 599"
    and "\<not> str_includes (body_text r) ''(4''"
  shows "\<exists>err. complete P x f = Inl err \<and> \<not> str_includes (message err) ''(4''"
  using assms by (simp add: complete_def ok_def api_error_5xx)

section \<open>Claims on the retry wrapper\<close>

text \<open>
  C3, at the input where the code departs from it. The provider answers 503 with the body
  \<open>upstream timeout (45s)\<close>. The test \<open>error.message.includes('(4')\<close> finds \<open>(4\<close> in the
  body, so \<open>completeWithRetry\<close> with three attempts allowed throws after one invocation
  and no delay: a 5xx failure that is not retried.
\<close>

theorem completeWithRetry_503_body_with_paren4_not_retried:
  "completeWithRetry parse_empty_object False (\<lambda>k. http_error 503 ''upstream timeout (45s)'') 3 =
     (Inl (Error ''OpenAI Responses API error (503): upstream timeout (45s)''),
      \<lparr>invocations = 1, delays = []\<rparr>)"
proof -
  have "complete parse_empty_object False (http_error 503 ''upstream timeout (45s)'') =
          Inl (Error ''OpenAI Responses API error (503): upstream timeout (45s)'')"
    by (simp add: complete_def http_error_def ok_def api_error_def show_nat.simps digit_char_def)
  moreover have "str_includes ''OpenAI Responses API error (503): upstream timeout (45s)'' ''(4''"
    by (simp add: startsWith_def)
  ultimately show ?thesis
    unfolding completeWithRetry_def by (simp add: retry_loop_stop)
qed

text \<open>
  A provider that fails twice with a 5xx status whose message the wrapper retries, that
  is whose body does not hold the text \<open>(4\<close>, and then succeeds:
  \<open>completeWithRetry\<close> with three attempts returns the success outcome after exactly
  three invocations, having slept 2 seconds before the second attempt and 4 seconds
  before the third. And when every attempt up to the last allowed one fails, the error
  of the last attempt is what is thrown, unchanged, the delay before attempt \<open>k + 1\<close>
  having been \<open>2 ^ k\<close> seconds.
\<close>

lemma completeWithRetry_retryable_failures:
  "(fetch 1 = Response ra \<and> 500 \<le> http_status ra \<and> http_status ra \<le> 599
      \<and> \<not> str_includes (body_text ra) ''(4''
      \<and> fetch 2 = Response rb \<and> 500 \<le> http_status rb \<and> http_status rb \<le> 599
      \<and> \<not> str_includes (body_text rb) ''(4''
      \<and> complete P x (fetch 3) = Inr outcome
    \<longrightarrow> completeWithRetry P x fetch 3 =
          (Inr outcome, \<lparr>invocations = 3, delays = [2000, 4000]\<rparr>))
   \<and>
   (0 < retries
      \<and> (\<forall>k. 1 \<le> k \<and> k \<le> retries \<longrightarrow> complete P x (fetch' k) = Inl (errs k))
      \<and> (\<forall>k. 1 \<le> k \<and> k < retries \<longrightarrow> \<not> str_includes (message (errs k)) ''(4'')
    \<longrightarrow> completeWithRetry P x fetch' retries =
          (Inl (errs retries),
           \<lparr>invocations = retries, delays = map (\<lambda>k. 2 ^ k * 1000) [1..<retries]\<rparr>))"
proof (intro conjI impI)
  assume a: "fetch 1 = Response ra \<and> 500 \<le> http_status ra \<and> http_status ra \<le> 599
      \<and> \<not> str_includes (body_text ra) ''(4''
      \<and> fetch 2 = Response rb \<and> 500 \<le> http_status rb \<and> http_status rb \<le> 599
      \<and> \<not> str_includes (body_text rb) ''(4''
      \<and> complete P x (fetch 3) = Inr outcome"
  have fails: "\<exists>err. complete P x (fetch k) = Inl err \<and> \<not> str_includes (message err) ''(4''"
    if "1 \<le> k" and "k < 3" for k
  proof -
    from that have "k = 1 \<or> k = 2" by auto
    then show ?thesis using a complete_5xx by auto
  qed
  have "[1..<3] = [1, 2::nat]" by (simp add: upt_rec)
  then show "completeWithRetry P x fetch 3 = (Inr outcome, \<lparr>invocations = 3, delays = [2000, 4000]\<rparr>)"
    using completeWithRetry_succeeds_at [of 3 3 P x fetch outcome] fails a by simp
next
  assume b: "0 < retries
      \<and> (\<forall>k. 1 \<le> k \<and> k \<le> retries \<longrightarrow> complete P x (fetch' k) = Inl (errs k))
      \<and> (\<forall>k. 1 \<le> k \<and> k < retries \<longrightarrow> \<not> str_includes (message (errs k)) ''(4'')"
  then show "completeWithRetry P x fetch' retries =
          (Inl (errs retries),
           \<lparr>invocations = retries, delays = map (\<lambda>k. 2 ^ k * 1000) [1..<retries]\<rparr>)"
    by (intro completeWithRetry_exhausted) auto
qed

lemma completeWithRetry_retryable_failures_example:
  "completeWithRetry parse_empty_object False twice_503_then_ok 3 =
     (Inr \<lparr>parsed = JNull, raw = ''done'',
           tokens = \<lparr>input = 0, output' = 0, reasoning = 0, total = 7\<rparr>, responseId = None\<rparr>,
      \<lparr>invocations = 3, delays = [2000, 4000]\<rparr>)
   \<and> completeWithRetry parse_empty_object False always_503 3 =
     (Inl (Error ''OpenAI Responses API error (503): overloaded''),
      \<lparr>invocations = 3, delays = [2000, 4000]\<rparr>)"
proof -
  have up: "[1..<3] = [1, 2::nat]" by (simp add: upt_rec)
  have e: "complete parse_empty_object False (http_error 503 ''overloaded'') =
             Inl (Error ''OpenAI Responses API error (503): overloaded'')"
    by (simp add: complete_def http_error_def ok_def api_error_def show_nat.simps digit_char_def)
  have n: "\<not> str_includes ''OpenAI Responses API error (503): overloaded'' ''(4''"
       "\<not> str_includes ''overloaded'' ''(4''"
    by (simp_all add: startsWith_def)
  have s: "complete parse_empty_object False (twice_503_then_ok 3) =
             Inr \<lparr>parsed = JNull, raw = ''done'',
                  tokens = \<lparr>input = 0, output' = 0, reasoning = 0, total = 7\<rparr>, responseId = None\<rparr>"
    by (simp add: complete_def twice_503_then_ok_def http_ok_def ok_def text_data_def
        parseResponse_def raw_text_def usage_tokens_def or_zero_def)
  show ?thesis
    using completeWithRetry_retryable_failures
      [where fetch = twice_503_then_ok and P = parse_empty_object and x = False
         and ra = "\<lparr>http_status = 503, body_text = ''overloaded'', body_json = Inl ''Unexpected token''\<rparr>"
         and rb = "\<lparr>http_status = 503, body_text = ''overloaded'', body_json = Inl ''Unexpected token''\<rparr>"
         and outcome = "\<lparr>parsed = JNull, raw = ''done'',
                  tokens = \<lparr>input = 0, output' = 0, reasoning = 0, total = 7\<rparr>, responseId = None\<rparr>"
         and fetch' = always_503 and retries = 3
         and errs = "\<lambda>k. Error ''OpenAI Responses API error (503): overloaded''"]
      e n s up
    by (simp add: twice_503_then_ok_def always_503_def http_error_def)
qed

text \<open>
  C4, at the input where the code departs from it. The provider answers 503 twice, with
  the body \<open>upstream timeout (45s)\<close>, and would succeed at the third attempt. The
  message of the first failure holds \<open>(4\<close>, so \<open>completeWithRetry\<close> with three attempts
  throws that failure after one invocation and no delay: the provider is not invoked
  three times and the success outcome is not returned. For failures whose message does
  not hold \<open>(4\<close>, the lemma before shows what the claim says.
\<close>

theorem completeWithRetry_503_twice_then_ok_stops_at_first_failure:
  "completeWithRetry parse_empty_object False twice_503_timeout_then_ok 3 =
     (Inl (Error ''OpenAI Responses API error (503): upstream timeout (45s)''),
      \<lparr>invocations = 1, delays = []\<rparr>)
   \<and> complete parse_empty_object False (twice_503_timeout_then_ok 3) =
     Inr \<lparr>parsed = JNull, raw = ''done'',
          tokens = \<lparr>input = 0, output' = 0, reasoning = 0, total = 7\<rparr>, responseId = None\<rparr>"
proof -
  have "complete parse_empty_object False (twice_503_timeout_then_ok 1) =
          Inl (Error ''OpenAI Responses API error (503): upstream timeout (45s)'')"
    by (simp add: twice_503_timeout_then_ok_def complete_def http_error_def ok_def api_error_def
        show_nat.simps digit_char_def)
  moreover have "str_includes ''OpenAI Responses API error (503): upstream timeout (45s)'' ''(4''"
    by (simp add: startsWith_def)
  ultimately have "completeWithRetry parse_empty_object False twice_503_timeout_then_ok 3 =
     (Inl (Error ''OpenAI Responses API error (503): upstream timeout (45s)''),
      \<lparr>invocations = 1, delays = []\<rparr>)"
    unfolding completeWithRetry_def by (simp add: retry_loop_stop)
  moreover have "complete parse_empty_object False (twice_503_timeout_then_ok 3) =
     Inr \<lparr>parsed = JNull, raw = ''done'',
          tokens = \<lparr>input = 0, output' = 0, reasoning = 0, total = 7\<rparr>, responseId = None\<rparr>"
    by (simp add: complete_def twice_503_timeout_then_ok_def http_ok_def ok_def text_data_def
        parseResponse_def raw_text_def usage_tokens_def or_zero_def)
  ultimately show ?thesis by (intro conjI)
qed

section \<open>Claims on parsing failures and on persisted rows\<close>

lemma or_else_null [simp]: "or_else (Some JNull) b = b"
  by (simp add: or_else_def)

lemma or_else_undefined [simp]: "or_else None b = b"
  by (simp add: or_else_def)





lemmas extract_defs =
  jsonStr_def jsonMatch_def match_here_def fence_def closes_def startsWith_def newline_def
  trim_def is_ws_def

lemma not_json_outcome_eq:
  "not_json_outcome =
     \<lparr>parsed = JNull, raw = ''I cannot answer in JSON'',
      tokens = \<lparr>input = 0, output' = 0, reasoning = 0, total = 5\<rparr>, responseId = None\<rparr>"
  by (simp add: not_json_outcome_def parseResponse_def raw_text_def text_data_def
      usage_tokens_def or_zero_def parse_empty_object_def extract_defs)



text \<open>
  C10. When the parsed field of the outcome is null, \<open>saveResponse\<close> binds all eleven
  values. The store refuses the row when its id is taken, and when the session or the
  persona does not exist; in every other case \<open>saveResponse\<close> inserts one row and does
  not throw. The position of that row is the empty string, its three lists are the
  text \<open>[]\<close>, its validation metrics are the text \<open>{}\<close>, its confidence is
  \<open>medium\<close>, its raw analysis and token count are those of the outcome, and no column
  of the row is null.
\<close>

theorem saveResponse_null_parsed_row:
  "parsed res = JNull \<Longrightarrow>
   (let row = \<lparr>row_id = SqlText uuid, session_id = SqlText sid, persona_id = SqlText pid,
               position = SqlText [], top_reasons = SqlText ''[]'', top_risks = SqlText ''[]'',
               recommended_modifications = SqlText ''[]'', validation_metrics = SqlText ''{}'',
               confidence = SqlText ''medium'', raw_analysis = SqlText (raw res),
               tokens_used = SqlInteger (int (total (tokens res)))\<rparr>
    in saveResponse uuid d sid pid res =
         (if SqlText uuid \<in> set (map row_id (responses d))
          then Inl (Error ''UNIQUE constraint failed: responses.id'')
          else if sessions d sid \<noteq> None \<and> pid \<in> set (personas d)
          then Inr (d\<lparr>responses := responses d @ [row]\<rparr>)
          else Inl (Error ''FOREIGN KEY constraint failed''))
       \<and> SqlNull \<notin> set (columns row))"
  by (simp add: saveResponse_def columns_def opt_chain_def Let_def primary_key_free_def
      foreign_keys_hold_def)

theorem saveResponse_null_parsed_row_witness:
  "saveResponse ''id-1'' test_db ''s1'' ''finance'' not_json_outcome =
     Inr (test_db
          \<lparr>responses :=
            [\<lparr>row_id = SqlText ''id-1'', session_id = SqlText ''s1'', persona_id = SqlText ''finance'',
              position = SqlText [], top_reasons = SqlText ''[]'', top_risks = SqlText ''[]'',
              recommended_modifications = SqlText ''[]'', validation_metrics = SqlText ''{}'',
              confidence = SqlText ''medium'', raw_analysis = SqlText ''I cannot answer in JSON'',
              tokens_used = SqlInteger 5\<rparr>]\<rparr>)
   \<and> sessions test_db ''s1'' = Some ''draft''
   \<and> personas test_db =
       [''secretary'', ''operator'', ''finance'', ''craft-expert'', ''contrarian'', ''strategist'']
   \<and> responses test_db = []"
  using saveResponse_null_parsed_row [of not_json_outcome "''id-1''" "''s1''" "''finance''" test_db]
  by (simp add: not_json_outcome_eq Let_def test_db_def)

section \<open>The rendered memo\<close>

lemma after_first_append:
  "\<exists>x. after_first p (a @ p @ rest) = Some (x @ rest)"
proof (induction a)
  case Nil
  show ?case
  proof (cases "p @ rest")
    case Nil
    then show ?thesis by simp
  next
    case (Cons c cs)
    then have "after_first p (p @ rest) = Some (drop (length p) (p @ rest))"
      by (metis after_first.simps(2) startsWith_append)
    then show ?thesis by simp
  qed
next
  case (Cons c a)
  show ?case
  proof (cases "startsWith (c # a @ p @ rest) p")
    case True
    have "length p \<le> length (c # a @ p)" by simp
    then have "drop (length p) ((c # a @ p) @ rest) = drop (length p) (c # a @ p) @ rest"
      by (simp only: drop_append) simp
    then show ?thesis using True by auto
  next
    case False
    then show ?thesis using Cons.IH by simp
  qed
qed

lemma after_first_split: "after_first p s = Some r \<Longrightarrow> \<exists>pre. s = pre @ p @ r"
proof (induction s)
  case Nil
  then show ?case by (simp split: if_splits)
next
  case (Cons c cs)
  show ?case
  proof (cases "startsWith (c # cs) p")
    case True
    then have "c # cs = p @ drop (length p) (c # cs)"
      unfolding startsWith_def by (metis append_take_drop_id)
    then show ?thesis using True Cons.prems by (metis after_first.simps(2) append_Nil option.inject)
  next
    case False
    then obtain pre where "cs = pre @ p @ r" using Cons by auto
    then show ?thesis by (metis append_Cons)
  qed
qed

lemma in_order_append_left: "in_order hs s \<Longrightarrow> in_order hs (a @ s)"
proof (induction hs arbitrary: s a)
  case Nil
  then show ?case by simp
next
  case (Cons h hs)
  then obtain r where r: "after_first h s = Some r" "in_order hs r"
    by (auto split: option.splits)
  then obtain pre where "s = pre @ h @ r" using after_first_split by blast
  then have "a @ s = (a @ pre) @ h @ r" by simp
  then obtain x where "after_first h (a @ s) = Some (x @ r)"
    using after_first_append [of h "a @ pre" r] by auto
  then show ?case using Cons.IH [OF r(2)] by simp
qed

lemma in_order_Cons: "in_order hs rest \<Longrightarrow> in_order (h # hs) (a @ h @ rest)"
proof -
  assume a: "in_order hs rest"
  obtain x where "after_first h (a @ h @ rest) = Some (x @ rest)"
    using after_first_append by blast
  then show ?thesis using in_order_append_left [OF a] by simp
qed

text \<open>
  Trimming a text that is white space, then a text from a first to a last character that
  are not white space, then a tail: the white space in front goes, and the tail is
  trimmed at its end.
\<close>

lemma trim_sandwich:
  assumes "\<forall>x\<in>set w. is_ws x" and "\<not> is_ws c" and "\<not> is_ws e"
  shows "trim (w @ c # mid @ e # tail) = c # mid @ e # trimEnd tail"
proof -
  have "dropWhile is_ws (w @ c # mid @ e # tail) = c # mid @ e # tail"
    using assms by (simp add: dropWhile_append)
  moreover have "rev (dropWhile is_ws (rev (c # mid @ e # tail))) = c # mid @ e # trimEnd tail"
    using assms by (simp add: dropWhile_append trimEnd_def)
  ultimately show ?thesis by (simp add: trim_def)
qed

text \<open>
  The rendered memo, with \<open>trim\<close> resolved: it starts at the title, and only what follows
  the last heading is trimmed.
\<close>

lemma formatMemoForPrompt_layout:
  "formatMemoForPrompt m =
     ''## Board Memo\<newline>\<newline>### Context\<newline>''
     @ join ''\<newline>'' (bullets (memo_context m))
     @ ''\<newline>\<newline>### Decision Required\<newline>''
     @ decision_required m
     @ ''\<newline>\<newline>### Options\<newline>''
     @ join ''\<newline>'' (numbered (map option_text (options m)))
     @ ''\<newline>\<newline>### Constraints\<newline>- Time: ''
     @ str_or (time (constraints m)) ''Not specified''
     @ ''\<newline>- Budget: ''
     @ str_or (budget (constraints m)) ''Not specified''
     @ ''\<newline>- Risk Tolerance: ''
     @ str_or (risk_tolerance (constraints m)) ''Medium''
     @ ''\<newline>''
     @ politics_line (constraints m)
     @ ''\<newline>\<newline>### Success Metrics\<newline>''
     @ join ''\<newline>'' (bullets (success_metrics m))
     @ ''\<newline>\<newline>### Questions for the Board''
     @ trimEnd (''\<newline>'' @ join ''\<newline>'' (numbered (questions_for_board m)) @ ''\<newline>'')"
proof -
  define mid where "mid = ''# Board Memo\<newline>\<newline>### Context\<newline>''
     @ join ''\<newline>'' (bullets (memo_context m))
     @ ''\<newline>\<newline>### Decision Required\<newline>''
     @ decision_required m
     @ ''\<newline>\<newline>### Options\<newline>''
     @ join ''\<newline>'' (numbered (map option_text (options m)))
     @ ''\<newline>\<newline>### Constraints\<newline>- Time: ''
     @ str_or (time (constraints m)) ''Not specified''
     @ ''\<newline>- Budget: ''
     @ str_or (budget (constraints m)) ''Not specified''
     @ ''\<newline>- Risk Tolerance: ''
     @ str_or (risk_tolerance (constraints m)) ''Medium''
     @ ''\<newline>''
     @ politics_line (constraints m)
     @ ''\<newline>\<newline>### Success Metrics\<newline>''
     @ join ''\<newline>'' (bullets (success_metrics m))
     @ ''\<newline>\<newline>### Questions for the Boar''"
  define tail where "tail = ''\<newline>'' @ join ''\<newline>'' (numbered (questions_for_board m)) @ ''\<newline>''"
  have "memo_template m = ''\<newline>'' @ CHR ''#'' # mid @ CHR ''d'' # tail"
    by (simp add: memo_template_def mid_def tail_def)
  moreover have "trim (''\<newline>'' @ CHR ''#'' # mid @ CHR ''d'' # tail) = CHR ''#'' # mid @ CHR ''d'' # trimEnd tail"
    by (rule trim_sandwich) (simp_all add: is_ws_def)
  ultimately have "formatMemoForPrompt m = CHR ''#'' # mid @ CHR ''d'' # trimEnd tail"
    unfolding formatMemoForPrompt_def by (simp only:)
  then show ?thesis by (simp add: mid_def tail_def)
qed

lemma memo_sections_in_order:
  "in_order [''### Context'', ''### Decision Required'', ''### Options'', ''### Constraints'',
             ''### Success Metrics'', ''### Questions for the Board''] (formatMemoForPrompt m)"
proof -
  have "formatMemoForPrompt m =
     ''## Board Memo\<newline>\<newline>'' @ ''### Context'' @ (
     (''\<newline>'' @ join ''\<newline>'' (bullets (memo_context m)) @ ''\<newline>\<newline>'') @ ''### Decision Required'' @ (
     (''\<newline>'' @ decision_required m @ ''\<newline>\<newline>'') @ ''### Options'' @ (
     (''\<newline>'' @ join ''\<newline>'' (numbered (map option_text (options m))) @ ''\<newline>\<newline>'') @ ''### Constraints'' @ (
     (''\<newline>- Time: '' @ str_or (time (constraints m)) ''Not specified''
       @ ''\<newline>- Budget: '' @ str_or (budget (constraints m)) ''Not specified''
       @ ''\<newline>- Risk Tolerance: '' @ str_or (risk_tolerance (constraints m)) ''Medium''
       @ ''\<newline>'' @ politics_line (constraints m) @ ''\<newline>\<newline>'') @ ''### Success Metrics'' @ (
     (''\<newline>'' @ join ''\<newline>'' (bullets (success_metrics m)) @ ''\<newline>\<newline>'') @ ''### Questions for the Board'' @
     trimEnd (''\<newline>'' @ join ''\<newline>'' (numbered (questions_for_board m)) @ ''\<newline>''))))))"
    by (simp add: formatMemoForPrompt_layout)
  then show ?thesis
    by (simp only: in_order_Cons in_order.simps(1))
qed

lemma memo_constraint_lines:
  "\<exists>pre post. formatMemoForPrompt m =
     pre @ (''\<newline>- Time: '' @ str_or (time (constraints m)) ''Not specified''
            @ ''\<newline>- Budget: '' @ str_or (budget (constraints m)) ''Not specified''
            @ ''\<newline>- Risk Tolerance: '' @ str_or (risk_tolerance (constraints m)) ''Medium''
            @ ''\<newline>'' @ politics_line (constraints m)
            @ ''\<newline>\<newline>### Success Metrics\<newline>'') @ post"
proof (intro exI)
  show "formatMemoForPrompt m =
     (''## Board Memo\<newline>\<newline>### Context\<newline>''
      @ join ''\<newline>'' (bullets (memo_context m))
      @ ''\<newline>\<newline>### Decision Required\<newline>''
      @ decision_required m
      @ ''\<newline>\<newline>### Options\<newline>''
      @ join ''\<newline>'' (numbered (map option_text (options m)))
      @ ''\<newline>\<newline>### Constraints'')
     @ (''\<newline>- Time: '' @ str_or (time (constraints m)) ''Not specified''
            @ ''\<newline>- Budget: '' @ str_or (budget (constraints m)) ''Not specified''
            @ ''\<newline>- Risk Tolerance: '' @ str_or (risk_tolerance (constraints m)) ''Medium''
            @ ''\<newline>'' @ politics_line (constraints m)
            @ ''\<newline>\<newline>### Success Metrics\<newline>'')
     @ (join ''\<newline>'' (bullets (success_metrics m))
        @ ''\<newline>\<newline>### Questions for the Board''
        @ trimEnd (''\<newline>'' @ join ''\<newline>'' (numbered (questions_for_board m)) @ ''\<newline>''))"
    by (simp add: formatMemoForPrompt_layout)
qed

lemma str_includes_inner:
  "s = pre @ (a @ p @ b) @ post \<Longrightarrow> str_includes s p"
proof -
  assume "s = pre @ (a @ p @ b) @ post"
  then have "s = (pre @ a) @ p @ (b @ post)" by simp
  then show ?thesis by (simp only: str_includes_mid)
qed

section \<open>Claim on the rendered memo\<close>

text \<open>
  C7, as the code has it. For every memo the rendered text has the six headings in the
  fixed order context, decision required, options, constraints, success metrics,
  questions. A missing (or empty) time constraint renders as \<open>Not specified\<close>, and so
  does a missing budget; a missing risk tolerance renders as \<open>Medium\<close>; and for missing
  political considerations no line is rendered: the line of the risk tolerance is
  followed by two empty lines and the next heading.
\<close>

theorem formatMemoForPrompt_sections_and_fallbacks:
  "in_order [''### Context'', ''### Decision Required'', ''### Options'', ''### Constraints'',
             ''### Success Metrics'', ''### Questions for the Board''] (formatMemoForPrompt m)
   \<and> (time (constraints m) = None \<or> time (constraints m) = Some []
        \<longrightarrow> str_includes (formatMemoForPrompt m) ''\<newline>- Time: Not specified\<newline>'')
   \<and> (budget (constraints m) = None \<or> budget (constraints m) = Some []
        \<longrightarrow> str_includes (formatMemoForPrompt m) ''\<newline>- Budget: Not specified\<newline>'')
   \<and> (risk_tolerance (constraints m) = None \<or> risk_tolerance (constraints m) = Some []
        \<longrightarrow> str_includes (formatMemoForPrompt m) ''\<newline>- Risk Tolerance: Medium\<newline>'')
   \<and> (politics (constraints m) = None \<or> politics (constraints m) = Some []
        \<longrightarrow> str_includes (formatMemoForPrompt m)
              (''\<newline>- Risk Tolerance: '' @ str_or (risk_tolerance (constraints m)) ''Medium''
               @ ''\<newline>\<newline>\<newline>### Success Metrics\<newline>''))"
proof -
  obtain pre post where layout: "formatMemoForPrompt m =
     pre @ (''\<newline>- Time: '' @ str_or (time (constraints m)) ''Not specified''
            @ ''\<newline>- Budget: '' @ str_or (budget (constraints m)) ''Not specified''
            @ ''\<newline>- Risk Tolerance: '' @ str_or (risk_tolerance (constraints m)) ''Medium''
            @ ''\<newline>'' @ politics_line (constraints m)
            @ ''\<newline>\<newline>### Success Metrics\<newline>'') @ post"
    using memo_constraint_lines by blast
  have t: "str_includes (formatMemoForPrompt m) ''\<newline>- Time: Not specified\<newline>''"
    if "time (constraints m) = None \<or> time (constraints m) = Some []"
  proof (rule str_includes_inner)
    show "formatMemoForPrompt m = pre @ ([] @ ''\<newline>- Time: Not specified\<newline>''
            @ (''- Budget: '' @ str_or (budget (constraints m)) ''Not specified''
            @ ''\<newline>- Risk Tolerance: '' @ str_or (risk_tolerance (constraints m)) ''Medium''
            @ ''\<newline>'' @ politics_line (constraints m)
            @ ''\<newline>\<newline>### Success Metrics\<newline>'')) @ post"
      using that layout by (auto simp: str_or_def)
  qed
  have b: "str_includes (formatMemoForPrompt m) ''\<newline>- Budget: Not specified\<newline>''"
    if "budget (constraints m) = None \<or> budget (constraints m) = Some []"
  proof (rule str_includes_inner)
    show "formatMemoForPrompt m = pre @ ((''\<newline>- Time: '' @ str_or (time (constraints m)) ''Not specified'')
            @ ''\<newline>- Budget: Not specified\<newline>''
            @ (''- Risk Tolerance: '' @ str_or (risk_tolerance (constraints m)) ''Medium''
            @ ''\<newline>'' @ politics_line (constraints m)
            @ ''\<newline>\<newline>### Success Metrics\<newline>'')) @ post"
      using that layout by (auto simp: str_or_def)
  qed
  have r: "str_includes (formatMemoForPrompt m) ''\<newline>- Risk Tolerance: Medium\<newline>''"
    if "risk_tolerance (constraints m) = None \<or> risk_tolerance (constraints m) = Some []"
  proof (rule str_includes_inner)
    show "formatMemoForPrompt m = pre @ ((''\<newline>- Time: '' @ str_or (time (constraints m)) ''Not specified''
            @ ''\<newline>- Budget: '' @ str_or (budget (constraints m)) ''Not specified'')
            @ ''\<newline>- Risk Tolerance: Medium\<newline>''
            @ (politics_line (constraints m)
            @ ''\<newline>\<newline>### Success Metrics\<newline>'')) @ post"
      using that layout by (auto simp: str_or_def)
  qed
  have p: "str_includes (formatMemoForPrompt m)
              (''\<newline>- Risk Tolerance: '' @ str_or (risk_tolerance (constraints m)) ''Medium''
               @ ''\<newline>\<newline>\<newline>### Success Metrics\<newline>'')"
    if "politics (constraints m) = None \<or> politics (constraints m) = Some []"
  proof (rule str_includes_inner)
    show "formatMemoForPrompt m = pre @ ((''\<newline>- Time: '' @ str_or (time (constraints m)) ''Not specified''
            @ ''\<newline>- Budget: '' @ str_or (budget (constraints m)) ''Not specified'')
            @ (''\<newline>- Risk Tolerance: '' @ str_or (risk_tolerance (constraints m)) ''Medium''
               @ ''\<newline>\<newline>\<newline>### Success Metrics\<newline>'')
            @ []) @ post"
      using that layout by (auto simp: politics_line_def)
  qed
  show ?thesis using memo_sections_in_order t b r p by blast
qed

theorem formatMemoForPrompt_sections_and_fallbacks_witness:
  "in_order [''### Context'', ''### Decision Required'', ''### Options'', ''### Constraints'',
             ''### Success Metrics'', ''### Questions for the Board''] (formatMemoForPrompt bare_memo)
   \<and> str_includes (formatMemoForPrompt bare_memo) ''\<newline>- Time: Not specified\<newline>''
   \<and> str_includes (formatMemoForPrompt bare_memo) ''\<newline>- Budget: Not specified\<newline>''
   \<and> str_includes (formatMemoForPrompt bare_memo) ''\<newline>- Risk Tolerance: Medium\<newline>''
   \<and> str_includes (formatMemoForPrompt bare_memo)
         ''\<newline>- Risk Tolerance: Medium\<newline>\<newline>\<newline>### Success Metrics\<newline>''"
proof -
  have c: "constraints bare_memo = \<lparr>time = None, budget = None, risk_tolerance = None, politics = None\<rparr>"
    by (simp add: bare_memo_def)
  show ?thesis
    using formatMemoForPrompt_sections_and_fallbacks [of bare_memo]
    by (simp add: c str_or_def)
qed

text \<open>
  C7 as stated fails: in the rendered text of a memo without constraints the risk
  tolerance reads \<open>Medium\<close>, not \<open>Not specified\<close>, and political considerations are
  left out.
\<close>

theorem missing_risk_tolerance_and_politics_not_Not_specified:
  "formatMemoForPrompt bare_memo =
     ''## Board Memo\<newline>\<newline>### Context\<newline>\<newline>\<newline>### Decision Required\<newline>Ship it?\<newline>\<newline>### Options\<newline>\<newline>\<newline>### Constraints\<newline>- Time: Not specified\<newline>- Budget: Not specified\<newline>- Risk Tolerance: Medium\<newline>\<newline>\<newline>### Success Metrics\<newline>\<newline>\<newline>### Questions for the Board''
   \<and> \<not> str_includes (formatMemoForPrompt bare_memo) ''Risk Tolerance: Not specified''
   \<and> \<not> str_includes (formatMemoForPrompt bare_memo) ''Political considerations''"
proof -
  have e: "formatMemoForPrompt bare_memo =
     ''## Board Memo\<newline>\<newline>### Context\<newline>\<newline>\<newline>### Decision Required\<newline>Ship it?\<newline>\<newline>### Options\<newline>\<newline>\<newline>### Constraints\<newline>- Time: Not specified\<newline>- Budget: Not specified\<newline>- Risk Tolerance: Medium\<newline>\<newline>\<newline>### Success Metrics\<newline>\<newline>\<newline>### Questions for the Board''"
    by (simp add: formatMemoForPrompt_layout bare_memo_def str_or_def politics_line_def
        bullets_def numbered_def trimEnd_def is_ws_def)
  show ?thesis
    unfolding e by (simp add: startsWith_def)
qed

section \<open>The JSON extractor\<close>

lemma startsWith_Nil [simp]: "startsWith s [] = True" "startsWith [] (p # ps) = False"
  by (simp_all add: startsWith_def)

lemma startsWith_Cons [simp]: "startsWith (c # cs) (p # ps) = (c = p \<and> startsWith cs ps)"
  by (auto simp: startsWith_def)

lemma closes_Nil [simp]: "closes [] = False"
  by (simp add: closes_def fence_def)

lemma before_first_fence_start: "startsWith t fence \<Longrightarrow> before_first fence t = Some []"
  by (cases t) (auto simp: fence_def)

lemma lazy_capture_spec:
  "(case lazy_capture t of
      None \<Rightarrow> before_first fence t = None
    | Some g \<Rightarrow> before_first fence t = Some g \<or> before_first fence t = Some (g @ [newline]))"
proof (induction t)
  case Nil
  then show ?case by (simp add: fence_def)
next
  case (Cons c cs)
  show ?case
  proof (cases "closes (c # cs)")
    case True
    then consider "c = newline" "startsWith cs fence" | "startsWith (c # cs) fence"
      by (auto simp: closes_def)
    then show ?thesis
    proof cases
      case 1
      then have "\<not> startsWith (c # cs) fence" by (simp add: fence_def newline_def)
      then show ?thesis using 1 True by (simp add: before_first_fence_start)
    next
      case 2
      then show ?thesis using True by simp
    qed
  next
    case False
    then have "\<not> startsWith (c # cs) fence" by (simp add: closes_def)
    then show ?thesis using False Cons.IH by (auto split: option.splits)
  qed
qed

lemma no_fence_tl: "before_first fence (c # cs) = None \<Longrightarrow> before_first fence cs = None"
  by (auto split: if_splits)

lemma no_fence_drop: "before_first fence s = None \<Longrightarrow> before_first fence (drop k s) = None"
proof (induction k arbitrary: s)
  case 0
  then show ?case by simp
next
  case (Suc k)
  show ?case
  proof (cases s)
    case Nil
    then show ?thesis using Suc.prems by simp
  next
    case (Cons c cs)
    then show ?thesis using Suc.prems Suc.IH [of cs] no_fence_tl by auto
  qed
qed

lemma is_ws_newline [simp]: "is_ws newline"
  by (simp add: is_ws_def newline_def)

lemma trim_newline_front: "trim (newline # x) = trim x"
  by (simp add: trim_def)

lemma trim_newline_back: "trim (x @ [newline]) = trim x"
proof (cases "\<forall>c\<in>set x. is_ws c")
  case True
  then have d: "dropWhile is_ws x = []" by simp
  have "dropWhile is_ws (x @ [newline]) = []" using True by simp
  then show ?thesis by (simp add: trim_def d)
next
  case False
  then have "dropWhile is_ws (x @ [newline]) = dropWhile is_ws x @ [newline]"
    by (simp add: dropWhile_append)
  then show ?thesis by (simp add: trim_def)
qed

lemma match_here_spec:
  assumes "startsWith t lit"
  shows "(case match_here lit t of
            None \<Rightarrow> before_first fence (drop (length lit) t) = None
          | Some g \<Rightarrow> \<exists>c. before_first fence (drop (length lit) t) = Some c \<and> trim c = trim g)"
proof -
  define r where "r = drop (length lit) t"
  show ?thesis
  proof (cases "\<exists>cs g. r = newline # cs \<and> lazy_capture cs = Some g")
    case True
    then obtain cs g where rg: "r = newline # cs" "lazy_capture cs = Some g" by blast
    then have mh: "match_here lit t = Some g"
      using assms by (simp add: match_here_def r_def [symmetric])
    have "before_first fence cs = Some g \<or> before_first fence cs = Some (g @ [newline])"
      using lazy_capture_spec [of cs] rg by simp
    moreover have "\<not> startsWith (newline # cs) fence" by (simp add: fence_def newline_def)
    ultimately have "before_first fence r = Some (newline # g) \<or> before_first fence r = Some (newline # g @ [newline])"
      using rg by auto
    then show ?thesis
      unfolding mh r_def [symmetric]
      using trim_newline_front [of g] trim_newline_front [of "g @ [newline]"] trim_newline_back [of g]
      by auto
  next
    case False
    then have mh: "match_here lit t = lazy_capture r"
      using assms by (auto simp: match_here_def r_def [symmetric] split: list.splits option.splits)
    show ?thesis
      unfolding mh r_def [symmetric]
      using lazy_capture_spec [of r] trim_newline_back
      by (auto split: option.splits)
  qed
qed

lemma match_here_no_fence:
  assumes "before_first fence (drop (length lit) t) = None"
  shows "match_here lit t = None"
proof (cases "startsWith t lit")
  case True
  then show ?thesis using match_here_spec [OF True] assms by (auto split: option.splits)
next
  case False
  then show ?thesis by (simp add: match_here_def)
qed

lemma regex_match_no_fence:
  "before_first fence (drop k s) = None \<Longrightarrow> k \<le> length lit \<Longrightarrow> regex_match lit s = None"
proof (induction s arbitrary: k)
  case Nil
  then have "before_first fence (drop (length lit) []) = None" by (simp add: fence_def)
  then show ?case using match_here_no_fence [of lit "[]"] by simp
next
  case (Cons c cs)
  have "drop (length lit) (c # cs) = drop (length lit - k) (drop k (c # cs))"
    using Cons.prems(2) by simp
  then have "before_first fence (drop (length lit) (c # cs)) = None"
    using no_fence_drop [OF Cons.prems(1)] by simp
  then have mh: "match_here lit (c # cs) = None" by (rule match_here_no_fence)
  have "before_first fence (drop (k - 1) cs) = None"
  proof (cases k)
    case 0
    then show ?thesis using Cons.prems(1) no_fence_tl by auto
  next
    case (Suc j)
    then show ?thesis using Cons.prems(1) by simp
  qed
  then have "regex_match lit cs = None"
    using Cons.IH [of "k - 1"] Cons.prems(2) by simp
  then show ?case using mh by simp
qed

lemma regex_match_spec:
  assumes "lit \<noteq> []"
  shows "(case regex_match lit s of
            None \<Rightarrow> between_fences lit s = None
          | Some g \<Rightarrow> \<exists>c. between_fences lit s = Some c \<and> trim c = trim g)"
proof (induction s)
  case Nil
  then show ?case using assms by (simp add: match_here_def between_fences_def startsWith_def)
next
  case (Cons c cs)
  show ?case
  proof (cases "startsWith (c # cs) lit")
    case True
    then have bf: "between_fences lit (c # cs) = before_first fence (drop (length lit) (c # cs))"
      by (simp add: between_fences_def)
    show ?thesis
    proof (cases "match_here lit (c # cs)")
      case None
      then have nf: "before_first fence (drop (length lit) (c # cs)) = None"
        using match_here_spec [OF True] by simp
      have "drop (length lit) (c # cs) = drop (length lit - 1) cs"
        using assms by (cases lit) simp_all
      then have "regex_match lit cs = None"
        using nf regex_match_no_fence [of "length lit - 1" cs lit] by simp
      then show ?thesis using None nf bf by simp
    next
      case (Some g)
      then show ?thesis using match_here_spec [OF True] bf by simp
    qed
  next
    case False
    then have "match_here lit (c # cs) = None" by (simp add: match_here_def)
    moreover have "between_fences lit (c # cs) = between_fences lit cs"
      using False by (simp add: between_fences_def)
    ultimately show ?thesis using Cons.IH by (auto split: option.splits)
  qed
qed

lemma jsonStr_priority: "jsonStr rawText = candidate_by_priority rawText"
proof -
  have a: "fence @ ''json'' \<noteq> []" and b: "fence \<noteq> []" by (simp_all add: fence_def)
  show ?thesis
    using regex_match_spec [OF a, of rawText] regex_match_spec [OF b, of rawText]
    by (auto simp: jsonStr_def jsonMatch_def candidate_by_priority_def split: option.splits)
qed

section \<open>Claim on the JSON extractor\<close>

text \<open>
  C9, as the code has it. For every raw text the candidate that \<open>parseResponse\<close>
  parses is chosen in this priority order: the text between the first fence labelled
  \<open>json\<close> and the next fence; else the text between the first fence and the next
  fence, which holds the language label of the opening fence when there is one; else the
  whole text; each trimmed. When a schema was requested and the raw text is not empty,
  the parsed field is what \<open>JSON.parse\<close> gives on that one candidate, and null when it
  throws; no other candidate is tried.
\<close>

theorem jsonStr_candidate_priority:
  "jsonStr rawText = candidate_by_priority rawText
   \<and> parsed (parseResponse JSON_parse data True) =
       (if raw_text data = [] then JNull
        else (case JSON_parse (candidate_by_priority (raw_text data)) of
                Some v \<Rightarrow> v
              | None \<Rightarrow> JNull))"
  by (simp add: jsonStr_priority parseResponse_def Let_def)

theorem jsonStr_candidate_priority_witness:
  "jsonStr (''Here: '' @ fence @ ''json\<newline>{}\<newline>'' @ fence @ '' and '' @ fence @ ''\<newline>[]\<newline>'' @ fence) = ''{}''
   \<and> parsed (parseResponse parse_empty_object
        (text_data (''Here: '' @ fence @ ''json\<newline>{}\<newline>'' @ fence @ '' and '' @ fence @ ''\<newline>[]\<newline>'' @ fence) 1) True)
       = JObj []"
  using jsonStr_candidate_priority
    [of "''Here: '' @ fence @ ''json\<newline>{}\<newline>'' @ fence @ '' and '' @ fence @ ''\<newline>[]\<newline>'' @ fence"
        parse_empty_object
        "text_data (''Here: '' @ fence @ ''json\<newline>{}\<newline>'' @ fence @ '' and '' @ fence @ ''\<newline>[]\<newline>'' @ fence) 1"]
  by (simp add: candidate_by_priority_def between_fences_def fence_def trim_def is_ws_def
      raw_text_def text_data_def parse_empty_object_def)

text \<open>
  C9 as stated fails: for a text that is one fenced block labelled \<open>js\<close> holding \<open>{}\<close>,
  the contents of the block are \<open>{}\<close>, which parses, but the candidate of the code is
  \<open>js\<close>, a line break and \<open>{}\<close>, and the parsed field is null.
\<close>

theorem fence_of_other_language_candidate_keeps_label:
  "fenced_block_contents js_fenced_text = Some ''{}\<newline>''
   \<and> parse_empty_object (trim ''{}\<newline>'') = Some (JObj [])
   \<and> jsonStr js_fenced_text = ''js\<newline>{}''
   \<and> parsed (parseResponse parse_empty_object (text_data js_fenced_text 1) True) = JNull"
  by (simp add: jsonStr_priority candidate_by_priority_def fenced_block_contents_def
      between_fences_def js_fenced_text_def fence_def newline_def trim_def is_ws_def
      parseResponse_def raw_text_def text_data_def parse_empty_object_def Let_def)

section \<open>Runs of the board meeting\<close>

lemma test_env_sel [simp]:
  "json_parse (test_env p) = parse_empty_object"
  "provider (test_env p) = p"
  "loadPrompt (test_env p) f = ''Prompt of '' @ f"
  "uuidv4 (test_env p) k = ''id-'' @ show_nat k"
  "retryAttempts (test_env p) = 3"
  "settle_order (test_env p) = [3, 2, 1, 0]"
  by (simp_all add: test_env_def)

lemma memos_set_status [simp]: "memos (set_status d sid st) = memos d"
  by (simp add: set_status_def)

lemma responses_set_status [simp]: "responses (set_status d sid st) = responses d"
  by (simp add: set_status_def)

lemma sessions_set_status [simp]:
  "sessions (set_status d sid st) sid = map_option (\<lambda>_. st) (sessions d sid)"
  by (simp add: set_status_def)

lemma personas_set_status [simp]: "personas (set_status d sid st) = personas d"
  by (simp add: set_status_def)

lemma run_phase1_fails:
  assumes "memos d sid = Some m" and "fst (secretary_call e m) = Inl err"
  shows "runBoardMeeting e d sid =
         \<lparr>returned = Inl err, store = set_status d sid ''running'',
          calls = [(''secretary'', snd (secretary_call e m))]\<rparr>"
  using assms by (simp add: runBoardMeeting_def Let_def)

lemma run_phase2_fails:
  assumes "memos d sid = Some m" and "fst (secretary_call e m) = Inr s"
    and "awaited_board e m = Inl err"
  shows "runBoardMeeting e d sid =
         \<lparr>returned = Inl err, store = set_status d sid ''running'',
          calls = (''secretary'', snd (secretary_call e m)) # board_traces e m\<rparr>"
  using assms by (simp add: runBoardMeeting_def Let_def)

lemma run_phase3_fails:
  assumes "memos d sid = Some m" and "fst (secretary_call e m) = Inr s"
    and "awaited_board e m = Inr bs"
    and "save_board (uuidv4 e) 0 (set_status d sid ''running'') sid bs = (None, d2)"
    and "formatSynthesisInput m bs = Inr si"
    and "fst (strategist_call e si) = Inl err"
  shows "runBoardMeeting e d sid =
         \<lparr>returned = Inl err, store = d2,
          calls = (''secretary'', snd (secretary_call e m)) # board_traces e m
                  @ [(''strategist'', snd (strategist_call e si))]\<rparr>"
  using assms by (simp add: runBoardMeeting_def Let_def)


lemma run_completes:
  assumes "memos d sid = Some m" and "fst (secretary_call e m) = Inr s"
    and "awaited_board e m = Inr bs"
    and "save_board (uuidv4 e) 0 (set_status d sid ''running'') sid bs = (None, d2)"
    and "formatSynthesisInput m bs = Inr si"
    and "fst (strategist_call e si) = Inr st"
    and "saveResponse (uuidv4 e (length bs)) d2 sid ''strategist'' st = Inr d3"
  shows "runBoardMeeting e d sid =
         \<lparr>returned = Inr \<lparr>sessionId = sid, status = ''complete'', secretary = s, board = bs,
                           strategist = st,
                           totalTokens = total (tokens s)
                             + foldl (\<lambda>sum r. sum + total (tokens (result r))) 0 bs
                             + total (tokens st)\<rparr>,
          store = set_status d3 sid ''complete'',
          calls = (''secretary'', snd (secretary_call e m)) # board_traces e m
                  @ [(''strategist'', snd (strategist_call e si))]\<rparr>"
  using assms by (simp add: runBoardMeeting_def Let_def)

lemma run_returns_inversion:
  assumes "returned (runBoardMeeting e d sid) = Inr r"
  shows "\<exists>m s bs d2 si st d3.
           memos d sid = Some m \<and> fst (secretary_call e m) = Inr s
           \<and> awaited_board e m = Inr bs
           \<and> save_board (uuidv4 e) 0 (set_status d sid ''running'') sid bs = (None, d2)
           \<and> formatSynthesisInput m bs = Inr si
           \<and> fst (strategist_call e si) = Inr st
           \<and> saveResponse (uuidv4 e (length bs)) d2 sid ''strategist'' st = Inr d3"
  using assms
  by (auto simp: runBoardMeeting_def Let_def split: option.splits sum.splits prod.splits)


lemma promise_all_Inr:
  assumes "promise_all ord ps = Inr vs"
  shows "ps = map Inr vs"
proof -
  have none: "List.find (\<lambda>i. i < length ps \<and> isl (ps ! i)) (ord @ [0..<length ps]) = None"
    and vs: "vs = map projr ps"
    using assms by (auto simp: promise_all_def split: option.splits)
  have notl: "\<not> isl (ps ! i)" if "i < length ps" for i
    using none that by (auto simp: find_None_iff)
  have "ps ! i = Inr (projr (ps ! i))" if "i < length ps" for i
    using notl [OF that] by (cases "ps ! i") auto
  then show ?thesis unfolding vs by (intro nth_equalityI) simp_all
qed

lemma promise_all_Inl:
  assumes "promise_all ord ps = Inl e"
  shows "Inl e \<in> set ps"
proof -
  from assms obtain i where
    "List.find (\<lambda>i. i < length ps \<and> isl (ps ! i)) (ord @ [0..<length ps]) = Some i"
    and e: "e = projl (ps ! i)"
    by (auto simp: promise_all_def split: option.splits)
  then have "i < length ps" "isl (ps ! i)" by (auto simp: find_Some_iff)
  then have "ps ! i = Inl e" "i < length ps" using e by (cases "ps ! i"; simp)+
  then show ?thesis by (metis nth_mem)
qed

lemma promise_all_rejects:
  assumes "Inl e \<in> set ps"
  shows "\<exists>e'. promise_all ord ps = Inl e'"
proof (cases "promise_all ord ps")
  case (Inl a)
  then show ?thesis by blast
next
  case (Inr vs)
  then have "ps = map Inr vs" by (rule promise_all_Inr)
  then show ?thesis using assms by auto
qed


lemma bind_values_extends:
  "bind_values n acc vs = Inr bs \<Longrightarrow> \<exists>ys. bs = acc @ ys"
proof (induction vs arbitrary: acc)
  case Nil
  then show ?case by simp
next
  case (Cons v vs)
  then obtain b where "bind_values n (acc @ [b]) vs = Inr bs"
    by (auto split: sum.splits if_splits)
  from Cons.IH [OF this] show ?case by auto
qed

lemma bind_args_extends:
  "bind_args n named acc args = Inr bs \<Longrightarrow> \<exists>ys. bs = acc @ ys"
proof (induction n named acc args rule: bind_args.induct)
  case (1 n named acc)
  then show ?case by (simp split: if_splits)
next
  case (2 n named acc xs args)
  then show ?case by (auto split: sum.splits dest!: bind_values_extends)
next
  case (3 n named acc kvs args)
  then show ?case by (auto split: if_splits)
qed (auto split: sum.splits if_splits)

lemma row_of_first_three:
  "row_of (a # b # c # ys) = Some row \<Longrightarrow>
   row_id row = text_affinity a \<and> session_id row = text_affinity b
   \<and> persona_id row = text_affinity c"
  by (erule row_of.elims) auto

text \<open>
  A row that \<open>saveResponse\<close> inserts is that of its persona and of its session, which
  both exist; nothing else of the store changes.
\<close>

lemma saveResponse_Inr:
  assumes "saveResponse uuid d sid pid res = Inr d'"
  shows "\<exists>row. d' = d\<lparr>responses := responses d @ [row]\<rparr>
               \<and> row_id row = SqlText uuid \<and> session_id row = SqlText sid
               \<and> persona_id row = SqlText pid
               \<and> sessions d sid \<noteq> None \<and> pid \<in> set (personas d)"
proof -
  from assms obtain bs row where bs: "bind_args 11 False [BText uuid, BText sid, BText pid]
      [or_else (get_prop (or_else (Some (parsed res)) (JObj [])) ''position'')
         (or_else (opt_chain (get_prop (or_else (Some (parsed res)) (JObj [])) ''integrated_recommendation'') ''decision'') (JStr [])),
       JStr (JSON_stringify (or_else (get_prop (or_else (Some (parsed res)) (JObj [])) ''top_reasons'') (JArr []))),
       JStr (JSON_stringify (or_else (get_prop (or_else (Some (parsed res)) (JObj [])) ''top_risks'') (JArr []))),
       JStr (JSON_stringify (or_else (get_prop (or_else (Some (parsed res)) (JObj [])) ''recommended_modifications'') (JArr []))),
       JStr (JSON_stringify (or_else (get_prop (or_else (Some (parsed res)) (JObj [])) ''validation_metrics'') (JObj []))),
       or_else (get_prop (or_else (Some (parsed res)) (JObj [])) ''confidence'') (JStr ''medium''),
       JStr (raw res), JNum (int (total (tokens res)))] = Inr bs"
    and row: "row_of bs = Some row" and fk: "foreign_keys_hold d row"
    and d': "d' = d\<lparr>responses := responses d @ [row]\<rparr>"
    by (auto simp: saveResponse_def Let_def split: sum.splits option.splits if_splits)
  from bind_args_extends [OF bs] obtain ys where "bs = BText uuid # BText sid # BText pid # ys"
    by auto
  with row have r: "row_id row = SqlText uuid" "session_id row = SqlText sid"
    "persona_id row = SqlText pid"
    using row_of_first_three [of "BText uuid" "BText sid" "BText pid" ys row] by simp_all
  with fk have "sessions d sid \<noteq> None" "pid \<in> set (personas d)"
    by (simp_all add: foreign_keys_hold_def)
  with r d' show ?thesis by blast
qed

lemma save_board_rows:
  assumes "save_board uuids k d sid bs = (None, d2)"
  shows "\<exists>rows. responses d2 = responses d @ rows
                \<and> map persona_id rows = map (\<lambda>b. SqlText (persona b)) bs
                \<and> sessions d2 = sessions d \<and> memos d2 = memos d
                \<and> (bs \<noteq> [] \<longrightarrow> sessions d sid \<noteq> None)"
  using assms
proof (induction bs arbitrary: k d)
  case Nil
  then show ?case by simp
next
  case (Cons b bs)
  from Cons.prems obtain d' where d': "saveResponse (uuids k) d sid (persona b) (result b) = Inr d'"
    and rest: "save_board uuids (k + 1) d' sid bs = (None, d2)"
    by (auto split: sum.splits)
  from saveResponse_Inr [OF d'] obtain row where row:
    "d' = d\<lparr>responses := responses d @ [row]\<rparr>" "persona_id row = SqlText (persona b)"
    "sessions d sid \<noteq> None" by (elim exE conjE)
  from Cons.IH [OF rest] obtain rows where rows:
    "responses d2 = responses d' @ rows" "map persona_id rows = map (\<lambda>b. SqlText (persona b)) bs"
    "sessions d2 = sessions d'" "memos d2 = memos d'" by (elim exE conjE)
  show ?case
    by (rule exI [of _ "row # rows"]) (simp add: row rows)
qed

lemma awaited_board_personas:
  assumes "awaited_board e m = Inr bs"
  shows "map persona bs = map fst boardPersonas"
    and "map (\<lambda>b. Inr (result b)) bs = map (\<lambda>p. fst (snd p)) (boardPromises e m)"
proof -
  have eq: "map board_promise (boardPromises e m) = map Inr bs"
    using assms promise_all_Inr unfolding awaited_board_def by blast
  have each: "board_promise p = Inr b \<Longrightarrow> persona b = fst p \<and> Inr (result b) = fst (snd p)" for p b
    by (auto simp: board_promise_def split: sum.splits)
  have len: "length bs = length (boardPromises e m)"
    using eq by (metis length_map)
  have nth: "board_promise (boardPromises e m ! i) = Inr (bs ! i)" if "i < length bs" for i
    using eq that len by (metis nth_map)
  have "map persona bs = map fst (boardPromises e m)"
    by (rule nth_equalityI) (use len nth each in auto)
  then show "map persona bs = map fst boardPersonas"
    by (simp add: boardPromises_def comp_def)
  show "map (\<lambda>b. Inr (result b)) bs = map (\<lambda>p. fst (snd p)) (boardPromises e m)"
    by (rule nth_equalityI) (use len nth each in auto)
qed



lemma completeWithRetry_first_try:
  assumes "0 < retries" and "complete P x (fetch 1) = Inr c"
  shows "completeWithRetry P x fetch retries = (Inr c, \<lparr>invocations = 1, delays = []\<rparr>)"
  using completeWithRetry_succeeds_at [of 1 retries P x fetch c] assms by simp

lemma ok_outcome:
  "complete parse_empty_object x (http_ok (text_data t n)) =
     Inr (parseResponse parse_empty_object (text_data t n) x)"
  by (simp add: complete_def http_ok_def ok_def)

lemma llm_call_ok:
  "llm_call (test_env ok_provider) req =
     (Inr (parseResponse parse_empty_object
             (text_data (if jsonSchema req = None then ''The memo is clear.'' else ''{}'')
                        (length (personaId req)))
             (jsonSchema req \<noteq> None)),
      \<lparr>invocations = 1, delays = []\<rparr>)"
  unfolding llm_call_def
  by (rule completeWithRetry_first_try) (simp_all add: ok_provider_def ok_outcome)

lemma llm_call_other:
  "personaId req \<noteq> pid \<Longrightarrow>
   llm_call (test_env (failing_for pid)) req = llm_call (test_env ok_provider) req"
proof -
  assume "personaId req \<noteq> pid"
  then have "failing_for pid req = ok_provider req"
    by (intro ext) (simp add: failing_for_def)
  then show ?thesis by (simp add: llm_call_def)
qed

lemma overloaded_error:
  "complete P x (http_error 503 ''overloaded'') =
     Inl (Error ''OpenAI Responses API error (503): overloaded'')"
  by (simp add: complete_def http_error_def ok_def api_error_def show_nat.simps digit_char_def)

lemma llm_call_overloaded:
  assumes "personaId req = pid"
  shows "llm_call (test_env (failing_for pid)) req =
     (Inl (Error ''OpenAI Responses API error (503): overloaded''),
      \<lparr>invocations = 3, delays = [2000, 4000]\<rparr>)"
proof -
  have up: "[1..<3] = [1, 2::nat]" by (simp add: upt_rec)
  have n: "\<not> str_includes ''OpenAI Responses API error (503): overloaded'' ''(4''"
    by (simp add: startsWith_def)
  show ?thesis
    unfolding llm_call_def
    using completeWithRetry_exhausted
      [of 3 "json_parse (test_env (failing_for pid))" "jsonSchema req \<noteq> None"
          "provider (test_env (failing_for pid)) req"
          "\<lambda>k. Error ''OpenAI Responses API error (503): overloaded''"]
      assms n up
    by (simp add: failing_for_def overloaded_error)
qed

lemma parse_text: "parseResponse parse_empty_object (text_data ''The memo is clear.'' n) False =
   \<lparr>parsed = JNull, raw = ''The memo is clear.'',
    tokens = \<lparr>input = 0, output' = 0, reasoning = 0, total = n\<rparr>, responseId = None\<rparr>"
  by (simp add: parseResponse_def raw_text_def text_data_def usage_tokens_def or_zero_def Let_def)


lemma parse_obj: "parseResponse parse_empty_object (text_data ''{}'' n) True =
   \<lparr>parsed = JObj [], raw = ''{}'',
    tokens = \<lparr>input = 0, output' = 0, reasoning = 0, total = n\<rparr>, responseId = None\<rparr>"
  by (simp add: parseResponse_def raw_text_def text_data_def usage_tokens_def or_zero_def Let_def
      parse_empty_object_def jsonStr_priority candidate_by_priority_def between_fences_def
      fence_def trim_def is_ws_def)


lemmas request_defs = secretary_request_def board_request_def strategist_request_def

lemma secretary_call_ok:
  "secretary_call (test_env ok_provider) m =
     (Inr \<lparr>parsed = JNull, raw = ''The memo is clear.'',
           tokens = \<lparr>input = 0, output' = 0, reasoning = 0, total = 9\<rparr>, responseId = None\<rparr>,
      \<lparr>invocations = 1, delays = []\<rparr>)"
  by (simp add: secretary_call_def llm_call_ok request_defs parse_text)

lemma boardPromises_ok:
  "boardPromises (test_env ok_provider) m =
     map (\<lambda>p. (p, Inr \<lparr>parsed = JObj [], raw = ''{}'',
       tokens = \<lparr>input = 0, output' = 0, reasoning = 0, total = length p\<rparr>, responseId = None\<rparr>,
       \<lparr>invocations = 1, delays = []\<rparr>))
     [''operator'', ''finance'', ''craft-expert'', ''contrarian'']"
  by (simp add: boardPromises_def boardPersonas_def llm_call_ok request_defs parse_obj)



lemma promise_all_fulfilled: "promise_all ord (map Inr vs) = Inr vs"
proof -
  have a: "List.find (\<lambda>i. i < length (map Inr vs) \<and> isl (map Inr vs ! i)) (ord @ [0..<length (map Inr vs)]) = None"
    by (auto simp: find_None_iff)
  have b: "map projr (map Inr vs) = vs" by (simp add: comp_def)
  show ?thesis unfolding promise_all_def a b by simp
qed

lemma awaited_board_ok: "awaited_board (test_env ok_provider) m = Inr ok_board"
proof -
  have "map board_promise (boardPromises (test_env ok_provider) m) = map Inr ok_board"
    by (simp add: boardPromises_ok board_promise_def ok_board_def)
  then show ?thesis by (simp add: awaited_board_def promise_all_fulfilled)
qed

lemma saveResponse_empty_object:
  "parsed res = JObj [] \<Longrightarrow>
   saveResponse u d sid pid res =
     (if SqlText u \<in> set (map row_id (responses d))
      then Inl (Error ''UNIQUE constraint failed: responses.id'')
      else if sessions d sid \<noteq> None \<and> pid \<in> set (personas d)
      then Inr (d\<lparr>responses := responses d @
             [\<lparr>row_id = SqlText u, session_id = SqlText sid, persona_id = SqlText pid,
               position = SqlText [], top_reasons = SqlText ''[]'', top_risks = SqlText ''[]'',
               recommended_modifications = SqlText ''[]'', validation_metrics = SqlText ''{}'',
               confidence = SqlText ''medium'', raw_analysis = SqlText (raw res),
               tokens_used = SqlInteger (int (total (tokens res)))\<rparr>]\<rparr>)
      else Inl (Error ''FOREIGN KEY constraint failed''))"
  by (simp add: saveResponse_def opt_chain_def or_else_def Let_def primary_key_free_def
      foreign_keys_hold_def)

lemmas store_defs = set_status_def test_db_def show_nat.simps digit_char_def

lemma save_board_ok:
  "fst (save_board (uuidv4 (test_env p)) 0 (set_status test_db ''s1'' ''running'') ''s1'' ok_board) = None"
  by (simp add: ok_board_def saveResponse_empty_object store_defs)

lemma format_ok:
  "\<exists>si. formatSynthesisInput job_offer_memo ok_board = Inr si"
  by (simp add: formatSynthesisInput_def ok_board_def board_block_def join_field_def
      array_join_def or_else_def Let_def)



lemma secretary_call_other:
  "pid \<noteq> ''secretary'' \<Longrightarrow>
   secretary_call (test_env (failing_for pid)) m = secretary_call (test_env ok_provider) m"
  by (simp add: secretary_call_def llm_call_other request_defs)

lemma strategist_call_ok:
  "strategist_call (test_env ok_provider) si =
     (Inr \<lparr>parsed = JObj [], raw = ''{}'',
           tokens = \<lparr>input = 0, output' = 0, reasoning = 0, total = 10\<rparr>, responseId = None\<rparr>,
      \<lparr>invocations = 1, delays = []\<rparr>)"
  by (simp add: strategist_call_def llm_call_ok request_defs parse_obj)

lemma strategist_call_fails:
  "strategist_call (test_env (failing_for ''strategist'')) si =
     (Inl (Error ''OpenAI Responses API error (503): overloaded''),
      \<lparr>invocations = 3, delays = [2000, 4000]\<rparr>)"
  by (simp add: strategist_call_def llm_call_overloaded request_defs)

lemma secretary_call_fails:
  "secretary_call (test_env (failing_for ''secretary'')) m =
     (Inl (Error ''OpenAI Responses API error (503): overloaded''),
      \<lparr>invocations = 3, delays = [2000, 4000]\<rparr>)"
  by (simp add: secretary_call_def llm_call_overloaded request_defs)

lemma boardPromises_strategist_fails:
  "boardPromises (test_env (failing_for ''strategist'')) m = boardPromises (test_env ok_provider) m"
  by (simp add: boardPromises_def boardPersonas_def llm_call_other request_defs)

lemma awaited_board_strategist_fails:
  "awaited_board (test_env (failing_for ''strategist'')) m = Inr ok_board"
  using awaited_board_ok [of m]
  by (simp add: awaited_board_def boardPromises_strategist_fails)

lemma memo_s1: "memos test_db ''s1'' = Some job_offer_memo"
  by (simp add: test_db_def)

lemma run_secretary_fails:
  "runBoardMeeting (test_env (failing_for ''secretary'')) test_db ''s1'' =
     \<lparr>returned = Inl (Error ''OpenAI Responses API error (503): overloaded''),
      store = set_status test_db ''s1'' ''running'',
      calls = [(''secretary'', \<lparr>invocations = 3, delays = [2000, 4000]\<rparr>)]\<rparr>"
  using run_phase1_fails [OF memo_s1, of "test_env (failing_for ''secretary'')"]
  by (simp add: secretary_call_fails)

lemma boardPromises_finance_fails:
  "boardPromises (test_env (failing_for ''finance'')) m =
     [(''operator'', Inr \<lparr>parsed = JObj [], raw = ''{}'',
          tokens = \<lparr>input = 0, output' = 0, reasoning = 0, total = 8\<rparr>, responseId = None\<rparr>,
        \<lparr>invocations = 1, delays = []\<rparr>),
      (''finance'', Inl (Error ''OpenAI Responses API error (503): overloaded''),
        \<lparr>invocations = 3, delays = [2000, 4000]\<rparr>),
      (''craft-expert'', Inr \<lparr>parsed = JObj [], raw = ''{}'',
          tokens = \<lparr>input = 0, output' = 0, reasoning = 0, total = 12\<rparr>, responseId = None\<rparr>,
        \<lparr>invocations = 1, delays = []\<rparr>),
      (''contrarian'', Inr \<lparr>parsed = JObj [], raw = ''{}'',
          tokens = \<lparr>input = 0, output' = 0, reasoning = 0, total = 10\<rparr>, responseId = None\<rparr>,
        \<lparr>invocations = 1, delays = []\<rparr>)]"
  by (simp add: boardPromises_def boardPersonas_def request_defs llm_call_other
      llm_call_overloaded llm_call_ok parse_obj)

lemma awaited_board_finance_fails:
  "awaited_board (test_env (failing_for ''finance'')) m =
     Inl (Error ''OpenAI Responses API error (503): overloaded'')"
  by (simp add: awaited_board_def boardPromises_finance_fails promise_all_def board_promise_def)

lemma run_finance_fails:
  "returned (runBoardMeeting (test_env (failing_for ''finance'')) test_db ''s1'') =
     Inl (Error ''OpenAI Responses API error (503): overloaded'')"
  using run_phase2_fails [OF memo_s1, of "test_env (failing_for ''finance'')"]
  by (simp add: secretary_call_other secretary_call_ok awaited_board_finance_fails)

lemma ok_board_personas:
  "map (\<lambda>b. SqlText (persona b)) ok_board =
     [SqlText ''operator'', SqlText ''finance'', SqlText ''craft-expert'', SqlText ''contrarian'']"
  by (simp add: ok_board_def)

text \<open>The store after the rows of \<open>ok_board\<close> are saved to \<open>test_db\<close>.\<close>

lemma save_ok_board:
  "save_board (uuidv4 (test_env p)) 0 (set_status test_db ''s1'' ''running'') ''s1'' ok_board =
     (None, snd (save_board (uuidv4 (test_env p)) 0 (set_status test_db ''s1'' ''running'') ''s1'' ok_board))"
  by (simp add: prod_eq_iff save_board_ok)

lemma save_ok_board_store:
  "map persona_id (responses (snd (save_board (uuidv4 (test_env p)) 0
       (set_status test_db ''s1'' ''running'') ''s1'' ok_board))) =
     [SqlText ''operator'', SqlText ''finance'', SqlText ''craft-expert'', SqlText ''contrarian'']"
  "sessions (snd (save_board (uuidv4 (test_env p)) 0
       (set_status test_db ''s1'' ''running'') ''s1'' ok_board)) ''s1'' = Some ''running''"
  by (simp_all add: ok_board_def saveResponse_empty_object store_defs)

lemma format_ok_board:
  "formatSynthesisInput job_offer_memo ok_board =
     Inr (projr (formatSynthesisInput job_offer_memo ok_board))"
  using format_ok by (elim exE) simp

lemma save_strategist_ok:
  "parsed res = JObj [] \<Longrightarrow>
   saveResponse (uuidv4 (test_env p) (length ok_board))
       (snd (save_board (uuidv4 (test_env p)) 0 (set_status test_db ''s1'' ''running'') ''s1'' ok_board))
       ''s1'' ''strategist'' res =
     Inr (projr (saveResponse (uuidv4 (test_env p) (length ok_board))
       (snd (save_board (uuidv4 (test_env p)) 0 (set_status test_db ''s1'' ''running'') ''s1'' ok_board))
       ''s1'' ''strategist'' res))"
  by (simp add: ok_board_def saveResponse_empty_object store_defs)

lemma run_ok_returned:
  "returned (runBoardMeeting (test_env ok_provider) test_db ''s1'') =
     Inr \<lparr>sessionId = ''s1'', status = ''complete'',
          secretary = \<lparr>parsed = JNull, raw = ''The memo is clear.'',
             tokens = \<lparr>input = 0, output' = 0, reasoning = 0, total = 9\<rparr>, responseId = None\<rparr>,
          board = ok_board,
          strategist = \<lparr>parsed = JObj [], raw = ''{}'',
             tokens = \<lparr>input = 0, output' = 0, reasoning = 0, total = 10\<rparr>, responseId = None\<rparr>,
          totalTokens = 56\<rparr>"
proof -
  let ?e = "test_env ok_provider"
  let ?st = "\<lparr>parsed = JObj [], raw = ''{}'',
           tokens = \<lparr>input = 0, output' = 0, reasoning = 0, total = 10\<rparr>, responseId = None\<rparr>"
  have d3: "saveResponse (uuidv4 ?e (length ok_board))
       (snd (save_board (uuidv4 ?e) 0 (set_status test_db ''s1'' ''running'') ''s1'' ok_board))
       ''s1'' ''strategist'' ?st =
     Inr (projr (saveResponse (uuidv4 ?e (length ok_board))
       (snd (save_board (uuidv4 ?e) 0 (set_status test_db ''s1'' ''running'') ''s1'' ok_board))
       ''s1'' ''strategist'' ?st))"
    by (rule save_strategist_ok) simp
  have t: "foldl (\<lambda>sum r. sum + total (tokens (result r))) 0 ok_board = 37"
    by (simp add: ok_board_def)
  show ?thesis
    using run_completes [OF memo_s1 _ awaited_board_ok save_ok_board format_ok_board _ d3]
    by (simp add: secretary_call_ok strategist_call_ok t)
qed

lemma run_strategist_fails:
  "returned (runBoardMeeting (test_env (failing_for ''strategist'')) test_db ''s1'') =
     Inl (Error ''OpenAI Responses API error (503): overloaded'')
   \<and> map persona_id (responses (store (runBoardMeeting (test_env (failing_for ''strategist'')) test_db ''s1''))) =
     [SqlText ''operator'', SqlText ''finance'', SqlText ''craft-expert'', SqlText ''contrarian'']
   \<and> sessions (store (runBoardMeeting (test_env (failing_for ''strategist'')) test_db ''s1'')) ''s1'' =
     Some ''running''"
proof -
  let ?e = "test_env (failing_for ''strategist'')"
  let ?d2 = "snd (save_board (uuidv4 ?e) 0 (set_status test_db ''s1'' ''running'') ''s1'' ok_board)"
  let ?si = "projr (formatSynthesisInput job_offer_memo ok_board)"
  have "runBoardMeeting ?e test_db ''s1'' =
         \<lparr>returned = Inl (Error ''OpenAI Responses API error (503): overloaded''), store = ?d2,
          calls = (''secretary'', snd (secretary_call ?e job_offer_memo))
                  # board_traces ?e job_offer_memo
                  @ [(''strategist'', snd (strategist_call ?e ?si))]\<rparr>"
    by (rule run_phase3_fails [OF memo_s1 _ awaited_board_strategist_fails save_ok_board format_ok_board])
       (simp_all add: secretary_call_other secretary_call_ok strategist_call_fails)
  then show ?thesis by (simp add: save_ok_board_store)
qed

lemma run_ok_store:
  "map persona_id (responses (store (runBoardMeeting (test_env ok_provider) test_db ''s1''))) =
     [SqlText ''operator'', SqlText ''finance'', SqlText ''craft-expert'', SqlText ''contrarian'',
      SqlText ''strategist'']
   \<and> sessions (store (runBoardMeeting (test_env ok_provider) test_db ''s1'')) ''s1'' = Some ''complete''"
proof -
  let ?e = "test_env ok_provider"
  let ?st = "\<lparr>parsed = JObj [], raw = ''{}'',
           tokens = \<lparr>input = 0, output' = 0, reasoning = 0, total = 10\<rparr>, responseId = None\<rparr>"
  let ?d2 = "snd (save_board (uuidv4 ?e) 0 (set_status test_db ''s1'' ''running'') ''s1'' ok_board)"
  let ?si = "projr (formatSynthesisInput job_offer_memo ok_board)"
  let ?d3 = "projr (saveResponse (uuidv4 ?e (length ok_board)) ?d2 ''s1'' ''strategist'' ?st)"
  have d3: "saveResponse (uuidv4 ?e (length ok_board)) ?d2 ''s1'' ''strategist'' ?st = Inr ?d3"
    by (rule save_strategist_ok) simp
  from saveResponse_Inr [OF d3] obtain row where row:
    "?d3 = ?d2\<lparr>responses := responses ?d2 @ [row]\<rparr>" "persona_id row = SqlText ''strategist''"
    by (elim exE conjE)
  have row': "responses ?d3 = responses ?d2 @ [row]" "sessions ?d3 = sessions ?d2"
    by (subst row(1), simp)+
  have "store (runBoardMeeting ?e test_db ''s1'') = set_status ?d3 ''s1'' ''complete''"
    using run_completes [OF memo_s1 _ awaited_board_ok save_ok_board format_ok_board _ d3]
    by (simp add: secretary_call_ok strategist_call_ok)
  then show ?thesis using row(2) row' by (simp add: save_ok_board_store)
qed


section \<open>Claims on the run\<close>

lemma board_promise_rejected:
  "board_promise q = Inl x \<longleftrightarrow> fst (snd q) = Inl x"
  by (auto simp: board_promise_def split: sum.splits)

text \<open>When a reviewer call fails, the run throws the error of a reviewer call that failed.\<close>

lemma run_reviewer_fails:
  assumes "memos d sid = Some m" and "fst (secretary_call e m) = Inr s"
    and "q \<in> set (boardPromises e m)" and "isl (fst (snd q))"
  shows "\<exists>q'\<in>set (boardPromises e m). \<exists>x. fst (snd q') = Inl x
           \<and> returned (runBoardMeeting e d sid) = Inl x"
proof -
  from assms(4) obtain y where "fst (snd q) = Inl y" by (cases "fst (snd q)") auto
  then have "Inl y \<in> set (map board_promise (boardPromises e m))"
    using assms(3) board_promise_rejected [of q y] by (metis image_eqI set_map)
  then obtain x where x: "awaited_board e m = Inl x"
    unfolding awaited_board_def using promise_all_rejects by blast
  then have "Inl x \<in> set (map board_promise (boardPromises e m))"
    unfolding awaited_board_def by (rule promise_all_Inl)
  then obtain q' where "q' \<in> set (boardPromises e m)" and "board_promise q' = Inl x"
    by (auto simp del: board_promise_rejected)
  then have q': "q' \<in> set (boardPromises e m)" "fst (snd q') = Inl x"
    by (simp_all add: board_promise_rejected)
  have "returned (runBoardMeeting e d sid) = Inl x"
    using run_phase2_fails [OF assms(1,2) x] by simp
  then show ?thesis using q' by auto
qed

text \<open>
  C1, as the code has it. When the call of a phase fails terminally, the run throws the
  error of that call as \<open>completeWithRetry\<close> threw it, with no phase and no persona
  added, and returns no result: the error of the secretary call in phase 1; in phase 2
  the error of a reviewer call that failed, which is that of the one reviewer when
  exactly one fails; the error of the strategist call in phase 3.
\<close>

theorem runBoardMeeting_throws_the_error_of_the_failed_call:
  "(memos d sid = Some m \<and> fst (secretary_call e m) = Inl err
      \<longrightarrow> returned (runBoardMeeting e d sid) = Inl err)
   \<and> (memos d sid = Some m \<and> fst (secretary_call e m) = Inr s
        \<and> q \<in> set (boardPromises e m) \<and> isl (fst (snd q))
      \<longrightarrow> (\<exists>q'\<in>set (boardPromises e m). \<exists>x. fst (snd q') = Inl x
             \<and> returned (runBoardMeeting e d sid) = Inl x))
   \<and> (memos d sid = Some m \<and> fst (secretary_call e m) = Inr s
        \<and> q \<in> set (boardPromises e m) \<and> fst (snd q) = Inl err
        \<and> (\<forall>q'\<in>set (boardPromises e m). q' \<noteq> q \<longrightarrow> \<not> isl (fst (snd q')))
      \<longrightarrow> returned (runBoardMeeting e d sid) = Inl err)
   \<and> (memos d sid = Some m \<and> fst (secretary_call e m) = Inr s
        \<and> awaited_board e m = Inr bs
        \<and> save_board (uuidv4 e) 0 (set_status d sid ''running'') sid bs = (None, d2)
        \<and> formatSynthesisInput m bs = Inr si
        \<and> fst (strategist_call e si) = Inl err
      \<longrightarrow> returned (runBoardMeeting e d sid) = Inl err)"
proof (intro conjI impI)
  assume "memos d sid = Some m \<and> fst (secretary_call e m) = Inl err"
  then show "returned (runBoardMeeting e d sid) = Inl err"
    using run_phase1_fails [of d sid m e err] by simp
next
  assume "memos d sid = Some m \<and> fst (secretary_call e m) = Inr s
        \<and> q \<in> set (boardPromises e m) \<and> isl (fst (snd q))"
  then show "\<exists>q'\<in>set (boardPromises e m). \<exists>x. fst (snd q') = Inl x
             \<and> returned (runBoardMeeting e d sid) = Inl x"
    using run_reviewer_fails [of d sid m e s q] by simp
next
  assume a: "memos d sid = Some m \<and> fst (secretary_call e m) = Inr s
        \<and> q \<in> set (boardPromises e m) \<and> fst (snd q) = Inl err
        \<and> (\<forall>q'\<in>set (boardPromises e m). q' \<noteq> q \<longrightarrow> \<not> isl (fst (snd q')))"
  then obtain q' x where q': "q' \<in> set (boardPromises e m)" "fst (snd q') = Inl x"
    "returned (runBoardMeeting e d sid) = Inl x"
    using run_reviewer_fails [of d sid m e s q] by auto
  then have "q' = q" using a by auto
  then show "returned (runBoardMeeting e d sid) = Inl err" using q' a by simp
next
  assume "memos d sid = Some m \<and> fst (secretary_call e m) = Inr s
        \<and> awaited_board e m = Inr bs
        \<and> save_board (uuidv4 e) 0 (set_status d sid ''running'') sid bs = (None, d2)
        \<and> formatSynthesisInput m bs = Inr si
        \<and> fst (strategist_call e si) = Inl err"
  then show "returned (runBoardMeeting e d sid) = Inl err"
    using run_phase3_fails [of d sid m e s bs d2 si err] by simp
qed


lemma secretary_ok_when_other_fails:
  "pid \<noteq> ''secretary'' \<Longrightarrow>
   fst (secretary_call (test_env (failing_for pid)) m) =
     Inr \<lparr>parsed = JNull, raw = ''The memo is clear.'',
          tokens = \<lparr>input = 0, output' = 0, reasoning = 0, total = 9\<rparr>, responseId = None\<rparr>"
  by (simp add: secretary_call_other secretary_call_ok)

theorem runBoardMeeting_throws_the_error_of_the_failed_call_witness:
  "returned (runBoardMeeting (test_env (failing_for ''secretary'')) test_db ''s1'') =
     Inl (Error ''OpenAI Responses API error (503): overloaded'')
   \<and> (\<exists>q'\<in>set (boardPromises (test_env (failing_for ''finance'')) job_offer_memo).
         \<exists>x. fst (snd q') = Inl x
           \<and> returned (runBoardMeeting (test_env (failing_for ''finance'')) test_db ''s1'') = Inl x)
   \<and> returned (runBoardMeeting (test_env (failing_for ''finance'')) test_db ''s1'') =
     Inl (Error ''OpenAI Responses API error (503): overloaded'')
   \<and> returned (runBoardMeeting (test_env (failing_for ''strategist'')) test_db ''s1'') =
     Inl (Error ''OpenAI Responses API error (503): overloaded'')"
proof -
  let ?err = "Error ''OpenAI Responses API error (503): overloaded''"
  let ?sec = "\<lparr>parsed = JNull, raw = ''The memo is clear.'',
          tokens = \<lparr>input = 0, output' = 0, reasoning = 0, total = 9\<rparr>, responseId = None\<rparr>"
  let ?q = "(''finance'', Inl ?err :: thrown + completion, \<lparr>invocations = 3, delays = [2000, 4000]\<rparr>)"
  let ?fin = "test_env (failing_for ''finance'')"
  let ?str = "test_env (failing_for ''strategist'')"
  have a: "returned (runBoardMeeting (test_env (failing_for ''secretary'')) test_db ''s1'') = Inl ?err"
    using runBoardMeeting_throws_the_error_of_the_failed_call
      [where d = test_db and sid = "''s1''" and m = job_offer_memo
         and e = "test_env (failing_for ''secretary'')" and err = ?err]
    by (simp add: memo_s1 secretary_call_fails)
  have b: "\<exists>q'\<in>set (boardPromises ?fin job_offer_memo). \<exists>x. fst (snd q') = Inl x
           \<and> returned (runBoardMeeting ?fin test_db ''s1'') = Inl x"
    using runBoardMeeting_throws_the_error_of_the_failed_call
      [where d = test_db and sid = "''s1''" and m = job_offer_memo and e = ?fin and s = ?sec
         and q = ?q]
    by (simp add: memo_s1 secretary_ok_when_other_fails boardPromises_finance_fails)
  have c: "returned (runBoardMeeting ?fin test_db ''s1'') = Inl ?err"
    using runBoardMeeting_throws_the_error_of_the_failed_call
      [where d = test_db and sid = "''s1''" and m = job_offer_memo and e = ?fin and s = ?sec
         and q = ?q and err = ?err]
    by (simp add: memo_s1 secretary_ok_when_other_fails boardPromises_finance_fails)
  have d: "returned (runBoardMeeting ?str test_db ''s1'') = Inl ?err"
    using runBoardMeeting_throws_the_error_of_the_failed_call
      [where d = test_db and sid = "''s1''" and m = job_offer_memo and e = ?str and s = ?sec
         and bs = ok_board
         and ?d2.0 = "snd (save_board (uuidv4 ?str) 0 (set_status test_db ''s1'' ''running'') ''s1'' ok_board)"
         and si = "projr (formatSynthesisInput job_offer_memo ok_board)" and err = ?err]
      save_ok_board [of "failing_for ''strategist''"] format_ok_board
    by (simp add: memo_s1 secretary_ok_when_other_fails awaited_board_strategist_fails
        strategist_call_fails)
  show ?thesis using a b c d by (intro conjI)
qed

text \<open>
  C1 as stated fails: when the reviewer \<open>finance\<close> exhausts its retries on a 503, what
  the run throws is the error of the provider call itself, whose message names neither
  the persona nor a phase.
\<close>

theorem failed_reviewer_error_names_no_phase_and_no_persona:
  "returned (runBoardMeeting (test_env (failing_for ''finance'')) test_db ''s1'') =
     Inl (Error ''OpenAI Responses API error (503): overloaded'')
   \<and> \<not> str_includes ''OpenAI Responses API error (503): overloaded'' ''finance''
   \<and> \<not> str_includes ''OpenAI Responses API error (503): overloaded'' ''parallel_review''"
  by (simp add: run_finance_fails)


text \<open>
  C6, as the code has it. When the call of the secretary fails terminally, the run throws
  that error at once: the only \<open>completeWithRetry\<close> started is the one of the
  secretary, so no reviewer call is made; no response row is written; and the status of
  the session stays \<open>running\<close>, the value written at the start of the run. The code
  writes no status for a failed run.
\<close>

theorem failed_normalization_stops_the_run_with_status_running:
  "memos d sid = Some m \<Longrightarrow> fst (secretary_call e m) = Inl err \<Longrightarrow>
   returned (runBoardMeeting e d sid) = Inl err
   \<and> map fst (calls (runBoardMeeting e d sid)) = [''secretary'']
   \<and> responses (store (runBoardMeeting e d sid)) = responses d
   \<and> sessions (store (runBoardMeeting e d sid)) sid = map_option (\<lambda>_. ''running'') (sessions d sid)"
  using run_phase1_fails [of d sid m e err] by simp

theorem failed_normalization_stops_the_run_with_status_running_witness:
  "returned (runBoardMeeting (test_env (failing_for ''secretary'')) test_db ''s1'') =
     Inl (Error ''OpenAI Responses API error (503): overloaded'')
   \<and> map fst (calls (runBoardMeeting (test_env (failing_for ''secretary'')) test_db ''s1'')) =
     [''secretary'']
   \<and> responses (store (runBoardMeeting (test_env (failing_for ''secretary'')) test_db ''s1'')) = []
   \<and> sessions (store (runBoardMeeting (test_env (failing_for ''secretary'')) test_db ''s1'')) ''s1'' =
     Some ''running''"
  using failed_normalization_stops_the_run_with_status_running
    [of test_db "''s1''" job_offer_memo "test_env (failing_for ''secretary'')"
        "Error ''OpenAI Responses API error (503): overloaded''"]
  by (simp add: memo_s1 secretary_call_fails test_db_def)

text \<open>
  C6 as stated fails: after the secretary call has failed terminally, the session is not
  in a failed state, its status is \<open>running\<close>.
\<close>

theorem failed_normalization_leaves_status_running:
  "returned (runBoardMeeting (test_env (failing_for ''secretary'')) test_db ''s1'') =
     Inl (Error ''OpenAI Responses API error (503): overloaded'')
   \<and> sessions (store (runBoardMeeting (test_env (failing_for ''secretary'')) test_db ''s1'')) ''s1'' =
     Some ''running''
   \<and> sessions (store (runBoardMeeting (test_env (failing_for ''secretary'')) test_db ''s1'')) ''s1'' \<noteq>
     Some ''failed''"
  unfolding run_secretary_fails by (simp add: test_db_def)

subsection \<open>A run whose six calls succeed and whose last row is refused\<close>

lemma position_true_env_sel [simp]:
  "json_parse position_true_env = parse_position_true"
  "provider position_true_env = position_true_provider"
  "loadPrompt position_true_env f = ''Prompt of '' @ f"
  "uuidv4 position_true_env k = ''id-'' @ show_nat k"
  "retryAttempts position_true_env = 3"
  "settle_order position_true_env = [3, 2, 1, 0]"
  by (simp_all add: position_true_env_def)













subsection \<open>The result of a run\<close>





text \<open>
  C5, as the code has it. A run that returns a result has written exactly five rows,
  one for each of the four reviewers and one for the strategist, in this order, and none
  for the secretary, and has left the status \<open>complete\<close>. The rows are written before
  the run is complete: those of the reviewers right after phase 2, so that a run whose
  strategist call fails throws with the four reviewer rows written and with the status
  \<open>running\<close>; a run whose secretary call or whose phase 2 fails writes no row, and
  leaves the status \<open>running\<close> when the session exists.
\<close>

theorem runBoardMeeting_rows_written:
  "(returned (runBoardMeeting e d sid) = Inr r
      \<longrightarrow> (\<exists>rows. responses (store (runBoardMeeting e d sid)) = responses d @ rows
            \<and> map persona_id rows =
                [SqlText ''operator'', SqlText ''finance'', SqlText ''craft-expert'',
                 SqlText ''contrarian'', SqlText ''strategist''])
          \<and> sessions (store (runBoardMeeting e d sid)) sid = Some ''complete'')
   \<and> (memos d sid = Some m \<and> fst (secretary_call e m) = Inr s
        \<and> awaited_board e m = Inr bs
        \<and> save_board (uuidv4 e) 0 (set_status d sid ''running'') sid bs = (None, d2)
        \<and> formatSynthesisInput m bs = Inr si
        \<and> fst (strategist_call e si) = Inl err
      \<longrightarrow> returned (runBoardMeeting e d sid) = Inl err
          \<and> (\<exists>rows. responses (store (runBoardMeeting e d sid)) = responses d @ rows
            \<and> map persona_id rows =
                [SqlText ''operator'', SqlText ''finance'', SqlText ''craft-expert'',
                 SqlText ''contrarian''])
          \<and> sessions (store (runBoardMeeting e d sid)) sid = Some ''running'')
   \<and> (memos d sid = Some m
        \<and> (isl (fst (secretary_call e m)) \<or> isl (awaited_board e m))
      \<longrightarrow> isl (returned (runBoardMeeting e d sid))
          \<and> responses (store (runBoardMeeting e d sid)) = responses d
          \<and> sessions (store (runBoardMeeting e d sid)) sid =
              map_option (\<lambda>_. ''running'') (sessions d sid))"
proof -
  have A: "(\<exists>rows. responses (store (runBoardMeeting e d sid)) = responses d @ rows
            \<and> map persona_id rows =
                [SqlText ''operator'', SqlText ''finance'', SqlText ''craft-expert'',
                 SqlText ''contrarian'', SqlText ''strategist''])
          \<and> sessions (store (runBoardMeeting e d sid)) sid = Some ''complete''"
    if a: "returned (runBoardMeeting e d sid) = Inr r"
  proof -
    from run_returns_inversion [OF a] obtain m' s' bs' d2' si' st d3 where h:
      "memos d sid = Some m'" "fst (secretary_call e m') = Inr s'" "awaited_board e m' = Inr bs'"
      "save_board (uuidv4 e) 0 (set_status d sid ''running'') sid bs' = (None, d2')"
      "formatSynthesisInput m' bs' = Inr si'" "fst (strategist_call e si') = Inr st"
      "saveResponse (uuidv4 e (length bs')) d2' sid ''strategist'' st = Inr d3"
      by (elim exE conjE)
    from save_board_rows [OF h(4)] obtain rows where rows:
      "responses d2' = responses (set_status d sid ''running'') @ rows"
      "map persona_id rows = map (\<lambda>b. SqlText (persona b)) bs'"
      by (elim exE conjE)
    from saveResponse_Inr [OF h(7)] obtain row where row:
      "d3 = d2'\<lparr>responses := responses d2' @ [row]\<rparr>" "persona_id row = SqlText ''strategist''"
      "sessions d2' sid \<noteq> None"
      by (elim exE conjE)
    have row': "responses d3 = responses d2' @ [row]" "sessions d3 = sessions d2'"
      by (simp_all add: row(1))
    have p: "map persona bs' = [''operator'', ''finance'', ''craft-expert'', ''contrarian'']"
      using awaited_board_personas(1) [OF h(3)] by (simp add: boardPersonas_def)
    have "map (\<lambda>b. SqlText (persona b)) bs' = map SqlText (map persona bs')" by simp
    then have q: "map persona_id rows =
        [SqlText ''operator'', SqlText ''finance'', SqlText ''craft-expert'', SqlText ''contrarian'']"
      unfolding rows(2) p by simp
    have st: "store (runBoardMeeting e d sid) = set_status d3 sid ''complete''"
      using run_completes [OF h] by simp
    then have "responses (store (runBoardMeeting e d sid)) = responses d @ (rows @ [row])"
      using rows(1) row'(1) by simp
    moreover have "map persona_id (rows @ [row]) =
                  [SqlText ''operator'', SqlText ''finance'', SqlText ''craft-expert'',
                   SqlText ''contrarian'', SqlText ''strategist'']"
      using q row(2) by simp
    ultimately have ex: "\<exists>rows. responses (store (runBoardMeeting e d sid)) = responses d @ rows
            \<and> map persona_id rows =
                [SqlText ''operator'', SqlText ''finance'', SqlText ''craft-expert'',
                 SqlText ''contrarian'', SqlText ''strategist'']"
      by (intro exI conjI)
    have "sessions (store (runBoardMeeting e d sid)) sid = Some ''complete''"
      unfolding st using row(3) row'(2) by auto
    with ex show ?thesis by (intro conjI)
  qed
  have B: "returned (runBoardMeeting e d sid) = Inl err
          \<and> (\<exists>rows. responses (store (runBoardMeeting e d sid)) = responses d @ rows
            \<and> map persona_id rows =
                [SqlText ''operator'', SqlText ''finance'', SqlText ''craft-expert'',
                 SqlText ''contrarian''])
          \<and> sessions (store (runBoardMeeting e d sid)) sid = Some ''running''"
    if a: "memos d sid = Some m \<and> fst (secretary_call e m) = Inr s
        \<and> awaited_board e m = Inr bs
        \<and> save_board (uuidv4 e) 0 (set_status d sid ''running'') sid bs = (None, d2)
        \<and> formatSynthesisInput m bs = Inr si
        \<and> fst (strategist_call e si) = Inl err"
  proof -
    from a have run: "returned (runBoardMeeting e d sid) = Inl err"
      "store (runBoardMeeting e d sid) = d2"
      using run_phase3_fails [of d sid m e s bs d2 si err] by simp_all
    from a have sb: "save_board (uuidv4 e) 0 (set_status d sid ''running'') sid bs = (None, d2)"
      and ab: "awaited_board e m = Inr bs" by simp_all
    from save_board_rows [OF sb] obtain rows where rows:
      "responses d2 = responses (set_status d sid ''running'') @ rows"
      "map persona_id rows = map (\<lambda>b. SqlText (persona b)) bs"
      "sessions d2 = sessions (set_status d sid ''running'')"
      "bs \<noteq> [] \<longrightarrow> sessions (set_status d sid ''running'') sid \<noteq> None"
      by (elim exE conjE)
    have p: "map persona bs = [''operator'', ''finance'', ''craft-expert'', ''contrarian'']"
      using awaited_board_personas(1) [OF ab] by (simp add: boardPersonas_def)
    then have ne: "bs \<noteq> []" by auto
    have "map (\<lambda>b. SqlText (persona b)) bs = map SqlText (map persona bs)" by simp
    then have q: "map persona_id rows =
        [SqlText ''operator'', SqlText ''finance'', SqlText ''craft-expert'', SqlText ''contrarian'']"
      unfolding rows(2) p by simp
    have "responses (store (runBoardMeeting e d sid)) = responses d @ rows"
      using run(2) rows(1) by simp
    then have ex: "\<exists>rows. responses (store (runBoardMeeting e d sid)) = responses d @ rows
              \<and> map persona_id rows =
                  [SqlText ''operator'', SqlText ''finance'', SqlText ''craft-expert'',
                   SqlText ''contrarian'']"
      using q by (intro exI conjI)
    have "sessions (store (runBoardMeeting e d sid)) sid = Some ''running''"
      unfolding run(2) rows(3) using rows(4) ne by auto
    with ex run(1) show ?thesis by (intro conjI)
  qed
  have C: "isl (returned (runBoardMeeting e d sid))
          \<and> responses (store (runBoardMeeting e d sid)) = responses d
          \<and> sessions (store (runBoardMeeting e d sid)) sid =
              map_option (\<lambda>_. ''running'') (sessions d sid)"
    if a: "memos d sid = Some m
        \<and> (isl (fst (secretary_call e m)) \<or> isl (awaited_board e m))"
  proof (cases "fst (secretary_call e m)")
    case (Inl x)
    then show ?thesis using run_phase1_fails [of d sid m e x] a by simp
  next
    case (Inr s')
    then obtain x where "awaited_board e m = Inl x"
      using a by (cases "awaited_board e m") auto
    then show ?thesis using run_phase2_fails [of d sid m e s' x] a Inr by simp
  qed
  show ?thesis
    by (rule conjI [OF impI [OF A] conjI [OF impI [OF B] impI [OF C]]])
qed

theorem runBoardMeeting_rows_written_witness:
  "(\<exists>rows. responses (store (runBoardMeeting (test_env ok_provider) test_db ''s1'')) =
             responses test_db @ rows
         \<and> map persona_id rows =
             [SqlText ''operator'', SqlText ''finance'', SqlText ''craft-expert'',
              SqlText ''contrarian'', SqlText ''strategist''])
   \<and> sessions (store (runBoardMeeting (test_env ok_provider) test_db ''s1'')) ''s1'' =
       Some ''complete''
   \<and> returned (runBoardMeeting (test_env (failing_for ''strategist'')) test_db ''s1'') =
       Inl (Error ''OpenAI Responses API error (503): overloaded'')
   \<and> (\<exists>rows. responses (store (runBoardMeeting (test_env (failing_for ''strategist'')) test_db ''s1'')) =
             responses test_db @ rows
         \<and> map persona_id rows =
             [SqlText ''operator'', SqlText ''finance'', SqlText ''craft-expert'',
              SqlText ''contrarian''])
   \<and> sessions (store (runBoardMeeting (test_env (failing_for ''strategist'')) test_db ''s1'')) ''s1'' =
       Some ''running''
   \<and> isl (returned (runBoardMeeting (test_env (failing_for ''secretary'')) test_db ''s1''))
   \<and> responses (store (runBoardMeeting (test_env (failing_for ''secretary'')) test_db ''s1'')) =
       responses test_db
   \<and> sessions (store (runBoardMeeting (test_env (failing_for ''secretary'')) test_db ''s1'')) ''s1'' =
       Some ''running''"
proof -
  let ?err = "Error ''OpenAI Responses API error (503): overloaded''"
  let ?sec = "\<lparr>parsed = JNull, raw = ''The memo is clear.'',
          tokens = \<lparr>input = 0, output' = 0, reasoning = 0, total = 9\<rparr>, responseId = None\<rparr>"
  let ?str = "test_env (failing_for ''strategist'')"
  have a: "(\<exists>rows. responses (store (runBoardMeeting (test_env ok_provider) test_db ''s1'')) =
             responses test_db @ rows
         \<and> map persona_id rows =
             [SqlText ''operator'', SqlText ''finance'', SqlText ''craft-expert'',
              SqlText ''contrarian'', SqlText ''strategist''])
     \<and> sessions (store (runBoardMeeting (test_env ok_provider) test_db ''s1'')) ''s1'' =
         Some ''complete''"
    using runBoardMeeting_rows_written
      [where e = "test_env ok_provider" and d = test_db and sid = "''s1''"]
      run_ok_returned
    by simp
  have b: "returned (runBoardMeeting ?str test_db ''s1'') = Inl ?err
     \<and> (\<exists>rows. responses (store (runBoardMeeting ?str test_db ''s1'')) = responses test_db @ rows
         \<and> map persona_id rows =
             [SqlText ''operator'', SqlText ''finance'', SqlText ''craft-expert'',
              SqlText ''contrarian''])
     \<and> sessions (store (runBoardMeeting ?str test_db ''s1'')) ''s1'' = Some ''running''"
    using runBoardMeeting_rows_written
      [where e = ?str and d = test_db and sid = "''s1''" and m = job_offer_memo and s = ?sec
         and bs = ok_board
         and ?d2.0 = "snd (save_board (uuidv4 ?str) 0 (set_status test_db ''s1'' ''running'') ''s1'' ok_board)"
         and si = "projr (formatSynthesisInput job_offer_memo ok_board)" and err = ?err]
      save_ok_board [of "failing_for ''strategist''"] format_ok_board
    by (simp add: memo_s1 secretary_ok_when_other_fails awaited_board_strategist_fails
        strategist_call_fails)
  have c: "isl (returned (runBoardMeeting (test_env (failing_for ''secretary'')) test_db ''s1''))
     \<and> responses (store (runBoardMeeting (test_env (failing_for ''secretary'')) test_db ''s1'')) =
       responses test_db
     \<and> sessions (store (runBoardMeeting (test_env (failing_for ''secretary'')) test_db ''s1'')) ''s1'' =
       map_option (\<lambda>_. ''running'') (sessions test_db ''s1'')"
    using runBoardMeeting_rows_written
      [where e = "test_env (failing_for ''secretary'')" and d = test_db and sid = "''s1''"
         and m = job_offer_memo]
    by (simp add: memo_s1 secretary_call_fails)
  have s: "map_option (\<lambda>_. ''running'') (sessions test_db ''s1'') = Some ''running''"
    by (simp add: test_db_def)
  show ?thesis using a b c unfolding s by (intro conjI) simp_all
qed

text \<open>
  C5 as stated fails: a run in which every call succeeds writes no row for the secretary,
  and a run whose strategist call fails has written the four reviewer rows although it
  never is complete: it throws, and the status of its session is \<open>running\<close>.
\<close>

theorem no_normalization_row_and_rows_written_before_complete:
  "map persona_id (responses (store (runBoardMeeting (test_env ok_provider) test_db ''s1''))) =
     [SqlText ''operator'', SqlText ''finance'', SqlText ''craft-expert'', SqlText ''contrarian'',
      SqlText ''strategist'']
   \<and> SqlText ''secretary'' \<notin>
       set (map persona_id (responses (store (runBoardMeeting (test_env ok_provider) test_db ''s1''))))
   \<and> returned (runBoardMeeting (test_env (failing_for ''strategist'')) test_db ''s1'') =
     Inl (Error ''OpenAI Responses API error (503): overloaded'')
   \<and> map persona_id (responses (store (runBoardMeeting (test_env (failing_for ''strategist'')) test_db ''s1''))) =
     [SqlText ''operator'', SqlText ''finance'', SqlText ''craft-expert'', SqlText ''contrarian'']
   \<and> sessions (store (runBoardMeeting (test_env (failing_for ''strategist'')) test_db ''s1'')) ''s1'' =
     Some ''running''"
  using run_ok_store run_strategist_fails by simp

end
